theory Spec2Isabelle
  imports Main
begin

section \<open>Bytes, errors and formatting\<close>

text \<open>
  A Go \<^verbatim>\<open>string\<close> and a \<^verbatim>\<open>[]byte\<close> are sequences of bytes: \<^typ>\<open>string\<close>, a list of
  8-bit \<^typ>\<open>char\<close>. Go's \<^verbatim>\<open>int\<close> carries no arithmetic in this package (values are only
  compared and printed), so it is \<^typ>\<open>int\<close>.
\<close>

definition byte :: "char \<Rightarrow> nat" where
  "byte c = of_char c"

text \<open>
  Error values. \<open>SinkError\<close> is whatever error the \<^verbatim>\<open>io.Writer\<close> returned, \<open>Errorf\<close> is
  \<^verbatim>\<open>errors.Errorf\<close> with the format already expanded, \<open>Wrap\<close> is \<^verbatim>\<open>errors.Wrap(cause, msg)\<close>
  and \<open>MarshalerError\<close> is \<^verbatim>\<open>json.MarshalerError{Type, Err, sourceFunc}\<close>.
\<close>

datatype error =
    SinkError string
  | Errorf string
  | Wrap error string
  | MarshalerError string error string

text \<open>The text of \<^verbatim>\<open>err.Error()\<close>.\<close>

fun Error :: "error \<Rightarrow> string" where
  "Error (SinkError m) = m"
| "Error (Errorf m) = m"
| "Error (Wrap cause m) = m @ '': '' @ Error cause"
| "Error (MarshalerError T cause f) =
     ''json: error calling '' @ f @ '' for type '' @ T @ '': '' @ Error cause"

text \<open>\<^verbatim>\<open>strings.Contains(s, sub)\<close>, used to say that a message carries a text.\<close>

fun has_prefix :: "string \<Rightarrow> string \<Rightarrow> bool" where
  "has_prefix s [] = True"
| "has_prefix [] (p # ps) = False"
| "has_prefix (c # cs) (p # ps) = (c = p \<and> has_prefix cs ps)"

fun Contains :: "string \<Rightarrow> string \<Rightarrow> bool" where
  "Contains [] sub = (sub = [])"
| "Contains (c # cs) sub = (has_prefix (c # cs) sub \<or> Contains cs sub)"

text \<open>Decimal printing, as the verb \<^verbatim>\<open>%d\<close> and \<^verbatim>\<open>strconv.AppendInt(_, v, 10)\<close> do.\<close>

definition digit :: "nat \<Rightarrow> char" where
  "digit d = ''0123456789'' ! d"

function FormatUint :: "nat \<Rightarrow> string" where
  "FormatUint n = (if n < 10 then [digit n] else FormatUint (n div 10) @ [digit (n mod 10)])"
  by pat_completeness auto
termination
  by (relation "measure id") auto

declare FormatUint.simps [simp del]

definition FormatInt :: "int \<Rightarrow> string" where
  "FormatInt i = (if i < 0 then CHR ''-'' # FormatUint (nat (- i)) else FormatUint (nat i))"

text \<open>The number that a string of decimal digits denotes, to read back what was printed.\<close>

definition decimal_value :: "string \<Rightarrow> nat" where
  "decimal_value s = foldl (\<lambda>a c. 10 * a + (byte c - 48)) 0 s"

section \<open>strings.ToLower\<close>

text \<open>
  \<^verbatim>\<open>strings.ToLower\<close> has a fast path for strings of ASCII bytes only, which maps
  \<^verbatim>\<open>'A'..'Z'\<close> to \<^verbatim>\<open>'a'..'z'\<close> and copies every other byte. A string with a byte of
  \<^verbatim>\<open>0x80\<close> or more goes to \<^verbatim>\<open>strings.Map(unicode.ToLower, s)\<close>, which reads the Unicode
  case tables; these are not part of this package, so that branch is the parameter
  \<open>uni\<close> of the model and every theorem holds for each \<open>uni\<close>. The branch itself is
  modelled further down (\<open>strings_Map\<close>, \<open>unicode_ToLower\<close>) for an input that reaches it.
\<close>

definition lower_byte :: "char \<Rightarrow> char" where
  "lower_byte c = (if 65 \<le> byte c \<and> byte c \<le> 90 then char_of (byte c + 32) else c)"

definition isASCII :: "string \<Rightarrow> bool" where
  "isASCII s = list_all (\<lambda>c. byte c < 128) s"

definition ToLower :: "(string \<Rightarrow> string) \<Rightarrow> string \<Rightarrow> string" where
  "ToLower uni s = (if isASCII s then map lower_byte s else uni s)"

section \<open>Alignment and Markup\<close>

text \<open>
  \<^verbatim>\<open>type Alignment int\<close> with the constants \<^verbatim>\<open>Left = iota\<close>, \<^verbatim>\<open>Center\<close>, \<^verbatim>\<open>Right\<close>, and
  \<^verbatim>\<open>type Markup int\<close> with \<^verbatim>\<open>NoMarkup = iota\<close>, \<^verbatim>\<open>Pango\<close>. Every integer is a value of
  the type; the constants name three (two) of them.
\<close>

type_synonym Alignment = int

definition Left :: Alignment where "Left = 0"
definition Center :: Alignment where "Center = 1"
definition Right :: Alignment where "Right = 2"

type_synonym Markup = int

definition NoMarkup :: Markup where "NoMarkup = 0"
definition Pango :: Markup where "Pango = 1"

text \<open>
  \<^verbatim>\<open>func (a *Alignment) UnmarshalText(b []byte) error\<close>: the first argument is the value
  \<^verbatim>\<open>*a\<close> held before the call, the result is the value held after it and the returned
  error (\<open>None\<close> is \<^verbatim>\<open>nil\<close>).
\<close>

definition Alignment_UnmarshalText ::
  "(string \<Rightarrow> string) \<Rightarrow> Alignment \<Rightarrow> string \<Rightarrow> Alignment \<times> error option" where
  "Alignment_UnmarshalText uni a b =
     (let s = ToLower uni b in
      if s = ''left'' then (Left, None)
      else if s = ''center'' then (Center, None)
      else if s = ''right'' then (Right, None)
      else (a, Some (Errorf (''unknown alignment: '' @ b))))"

definition Alignment_MarshalText :: "Alignment \<Rightarrow> error + string" where
  "Alignment_MarshalText a =
     (if a = Left then Inr ''left''
      else if a = Center then Inr ''center''
      else if a = Right then Inr ''right''
      else Inl (Errorf (''unknown alignment: '' @ FormatInt a)))"

definition Markup_UnmarshalText ::
  "(string \<Rightarrow> string) \<Rightarrow> Markup \<Rightarrow> string \<Rightarrow> Markup \<times> error option" where
  "Markup_UnmarshalText uni m b =
     (let s = ToLower uni b in
      if s = ''none'' then (NoMarkup, None)
      else if s = ''pango'' then (Pango, None)
      else (m, Some (Errorf (''unknown markup: '' @ b))))"

definition Markup_MarshalText :: "Markup \<Rightarrow> error + string" where
  "Markup_MarshalText m =
     (if m = NoMarkup then Inr ''none''
      else if m = Pango then Inr ''pango''
      else Inl (Errorf (''unknown markup: '' @ FormatInt m)))"

section \<open>encoding/json: values and their text\<close>

text \<open>
  The package writes JSON through \<^verbatim>\<open>json.Encoder\<close> of the Go standard library. The
  encoder walks a Go value by reflection and appends text to a buffer; the model splits
  this into the JSON value that the walk emits (\<open>json\<close>, or the error that stops it) and
  the text of that value, compact or indented.
\<close>

datatype json =
    JNull
  | JBool bool
  | JInt int
  | JString string
  | JArray "json list"
  | JObject "(string \<times> json) list"

text \<open>
  \<^verbatim>\<open>utf8.DecodeRuneInString\<close>: the rune at the head of \<open>s\<close> and its width in bytes;
  \<open>(RuneError, 1)\<close> for an invalid encoding. \<open>first\<close> and \<open>acceptRanges\<close> are the tables
  of package \<^verbatim>\<open>unicode/utf8\<close>; masks and shifts are written with \<open>mod\<close> and \<open>*\<close>.
\<close>

definition RuneError :: nat where
  "RuneError = 0xFFFD"

definition first :: "nat \<Rightarrow> nat" where
  "first b =
     (if b < 0x80 then 0xF0
      else if b < 0xC2 then 0xF1
      else if b < 0xE0 then 0x02
      else if b = 0xE0 then 0x13
      else if b < 0xED then 0x03
      else if b = 0xED then 0x23
      else if b < 0xF0 then 0x03
      else if b = 0xF0 then 0x34
      else if b < 0xF4 then 0x04
      else if b = 0xF4 then 0x44
      else 0xF1)"

definition acceptRanges :: "nat \<Rightarrow> nat \<times> nat" where
  "acceptRanges i = [(0x80, 0xBF), (0xA0, 0xBF), (0x80, 0x9F), (0x90, 0xBF), (0x80, 0x8F)] ! i"

definition DecodeRuneInString :: "string \<Rightarrow> nat \<times> nat" where
  "DecodeRuneInString s =
     (let n = length s in
      if n < 1 then (RuneError, 0)
      else
        let s0 = byte (s ! 0); x = first s0 in
        if x \<ge> 0xF0 then ((if odd x then RuneError else s0), 1)
        else
          let sz = x mod 8; (lo, hi) = acceptRanges (x div 16) in
          if n < sz then (RuneError, 1)
          else
            let s1 = byte (s ! 1) in
            if s1 < lo \<or> hi < s1 then (RuneError, 1)
            else if sz \<le> 2 then ((s0 mod 32) * 64 + s1 mod 64, 2)
            else
              let s2 = byte (s ! 2) in
              if s2 < 0x80 \<or> 0xBF < s2 then (RuneError, 1)
              else if sz \<le> 3 then ((s0 mod 16) * 4096 + (s1 mod 64) * 64 + s2 mod 64, 3)
              else
                let s3 = byte (s ! 3) in
                if s3 < 0x80 \<or> 0xBF < s3 then (RuneError, 1)
                else ((s0 mod 8) * 262144 + (s1 mod 64) * 4096 + (s2 mod 64) * 64
                        + s3 mod 64, 4))"

text \<open>
  \<^verbatim>\<open>appendString(dst, src, escapeHTML)\<close> with \<^verbatim>\<open>escapeHTML = true\<close>, the setting of
  \<^verbatim>\<open>json.NewEncoder\<close> (the package never calls \<^verbatim>\<open>SetEscapeHTML\<close>). \<open>htmlSafe\<close> is the
  table \<^verbatim>\<open>htmlSafeSet\<close>. The short forms for backspace and form feed are those of
  Go 1.22 and later; earlier releases write \<^verbatim>\<open>\u0008\<close> and \<^verbatim>\<open>\u000c\<close>.
\<close>

definition hex :: "nat \<Rightarrow> char" where
  "hex d = ''0123456789abcdef'' ! d"

definition htmlSafe :: "nat \<Rightarrow> bool" where
  "htmlSafe b = (0x20 \<le> b \<and> b < 0x80 \<and> b \<notin> {0x22, 0x26, 0x3C, 0x3E, 0x5C})"

definition escape_byte :: "char \<Rightarrow> string" where
  "escape_byte c =
     (let b = byte c in
      if b = 0x5C \<or> b = 0x22 then [CHR 0x5C, c]
      else if b = 0x08 then [CHR 0x5C, CHR ''b'']
      else if b = 0x0C then [CHR 0x5C, CHR ''f'']
      else if b = 0x0A then [CHR 0x5C, CHR ''n'']
      else if b = 0x0D then [CHR 0x5C, CHR ''r'']
      else if b = 0x09 then [CHR 0x5C, CHR ''t'']
      else [CHR 0x5C, CHR ''u'', CHR ''0'', CHR ''0'', hex (b div 16), hex (b mod 16)])"

text \<open>
  The loop of \<^verbatim>\<open>appendString\<close> over the bytes of \<open>src\<close>. The rune at a byte of \<open>0x80\<close> or
  more is decoded from at most \<^verbatim>\<open>utf8.UTFMax = 4\<close> bytes and has a width of at least 1
  (\<open>DecodeRuneInString_width\<close> below), so the bytes after the first that it covers are
  \<open>take (width - 1) cs\<close>.
\<close>

fun appendString_loop :: "string \<Rightarrow> string" where
  "appendString_loop [] = []"
| "appendString_loop (c # cs) =
     (if byte c < 0x80 then
        (if htmlSafe (byte c) then [c] else escape_byte c) @ appendString_loop cs
      else
        (case DecodeRuneInString (take 4 (c # cs)) of (r, width) \<Rightarrow>
           if r = RuneError \<and> width = 1 then
             [CHR 0x5C, CHR ''u'', CHR ''f'', CHR ''f'', CHR ''f'', CHR ''d'']
               @ appendString_loop cs
           else if r = 0x2028 \<or> r = 0x2029 then
             [CHR 0x5C, CHR ''u'', CHR ''2'', CHR ''0'', CHR ''2'', hex (r mod 16)]
               @ appendString_loop (drop (width - 1) cs)
           else c # take (width - 1) cs @ appendString_loop (drop (width - 1) cs)))"

definition appendString :: "string \<Rightarrow> string" where
  "appendString src = [CHR 0x22] @ appendString_loop src @ [CHR 0x22]"

text \<open>
  The compact text: what the encoders of \<^verbatim>\<open>encode.go\<close> append for a value. Member names
  are written between double quotes as they are (the names of this package hold no
  byte that \<^verbatim>\<open>appendString\<close> would change).
\<close>

fun intercalate :: "string \<Rightarrow> string list \<Rightarrow> string" where
  "intercalate sep [] = []"
| "intercalate sep [x] = x"
| "intercalate sep (x # y # ys) = x @ sep @ intercalate sep (y # ys)"

fun compact :: "json \<Rightarrow> string" where
  "compact JNull = ''null''"
| "compact (JBool b) = (if b then ''true'' else ''false'')"
| "compact (JInt i) = FormatInt i"
| "compact (JString s) = appendString s"
| "compact (JArray xs) = ''['' @ intercalate '','' (map compact xs) @ '']''"
| "compact (JObject ms) =
     ''{'' @ intercalate '',''
        (map (\<lambda>(k, v). [CHR 0x22] @ k @ [CHR 0x22] @ '':'' @ compact v) ms) @ ''}''"

text \<open>
  The indented text: what \<^verbatim>\<open>json.Indent\<close> makes of the compact text of a value. A
  line break and the indentation follow every \<^verbatim>\<open>[\<close>, \<^verbatim>\<open>{\<close> and \<^verbatim>\<open>,\<close> and precede the
  closing bracket, a space follows every \<^verbatim>\<open>:\<close>, and an empty array or object stays
  \<^verbatim>\<open>[]\<close> or \<^verbatim>\<open>{}\<close>.
\<close>

definition appendNewline :: "string \<Rightarrow> string \<Rightarrow> nat \<Rightarrow> string" where
  "appendNewline prefix indent depth = CHR 0x0A # prefix @ concat (replicate depth indent)"

fun indented :: "string \<Rightarrow> string \<Rightarrow> nat \<Rightarrow> json \<Rightarrow> string" where
  "indented prefix indent depth (JArray xs) =
     (if xs = [] then ''[]''
      else ''['' @ appendNewline prefix indent (depth + 1)
        @ intercalate ('','' @ appendNewline prefix indent (depth + 1))
            (map (indented prefix indent (depth + 1)) xs)
        @ appendNewline prefix indent depth @ '']'')"
| "indented prefix indent depth (JObject ms) =
     (if ms = [] then ''{}''
      else ''{'' @ appendNewline prefix indent (depth + 1)
        @ intercalate ('','' @ appendNewline prefix indent (depth + 1))
            (map (\<lambda>(k, v). [CHR 0x22] @ k @ [CHR 0x22] @ '': ''
                    @ indented prefix indent (depth + 1) v) ms)
        @ appendNewline prefix indent depth @ ''}'')"
| "indented prefix indent depth v = compact v"

section \<open>Header, Block and StatusLine\<close>

record Header =
  Version :: int
  StopSignal :: int
  ContSignal :: int
  ClickEvents :: bool

record Block =
  Name :: string
  Instance :: string
  FullText :: string
  ShortText :: string
  Color :: string
  Background :: string
  Border :: string
  MinWidth :: string
  Align :: Alignment
  Urgent :: bool
  Separator :: bool
  SeparatorBlockWidth :: int
  Markup :: Markup

text \<open>
  \<^verbatim>\<open>type StatusLine []*Block\<close>: \<open>None\<close> is the nil slice, and an element \<open>None\<close> is a nil
  pointer.
\<close>

type_synonym StatusLine = "Block option list option"

text \<open>
  A struct field as the struct encoder sees it: the name of its \<^verbatim>\<open>json\<close> tag, whether it
  is skipped (\<^verbatim>\<open>omitempty\<close> on a value that \<^verbatim>\<open>isEmptyValue\<close> finds empty: the empty
  string, \<^verbatim>\<open>false\<close>, \<open>0\<close>), and what the encoder of its type emits. The fields are
  visited in the order of declaration; a skipped field's encoder is not run, and the
  first error ends the walk.
\<close>

type_synonym field = "string \<times> bool \<times> (error + json)"

fun structFields :: "field list \<Rightarrow> error + (string \<times> json) list" where
  "structFields [] = Inr []"
| "structFields ((name, skipped, v) # fs) =
     (if skipped then structFields fs
      else case v of
        Inl e \<Rightarrow> Inl e
      | Inr j \<Rightarrow> (case structFields fs of Inl e \<Rightarrow> Inl e | Inr ms \<Rightarrow> Inr ((name, j) # ms)))"

definition structEncoder :: "field list \<Rightarrow> error + json" where
  "structEncoder fs = (case structFields fs of Inl e \<Rightarrow> Inl e | Inr ms \<Rightarrow> Inr (JObject ms))"

text \<open>
  \<^verbatim>\<open>textMarshalerEncoder\<close>: a type with a \<^verbatim>\<open>MarshalText\<close> method is written as the JSON
  string of the text, and an error of the method is returned as a \<^verbatim>\<open>MarshalerError\<close>.
\<close>

definition textMarshalerEncoder :: "string \<Rightarrow> error + string \<Rightarrow> error + json" where
  "textMarshalerEncoder T r =
     (case r of Inl e \<Rightarrow> Inl (MarshalerError T e ''MarshalText'') | Inr t \<Rightarrow> Inr (JString t))"

definition Header_fields :: "Header \<Rightarrow> field list" where
  "Header_fields h =
     [(''version'', False, Inr (JInt (Version h))),
      (''stop_signal'', StopSignal h = 0, Inr (JInt (StopSignal h))),
      (''cont_signal'', ContSignal h = 0, Inr (JInt (ContSignal h))),
      (''click_events'', \<not> ClickEvents h, Inr (JBool (ClickEvents h)))]"

definition Block_fields :: "Block \<Rightarrow> field list" where
  "Block_fields b =
     [(''name'', Name b = [], Inr (JString (Name b))),
      (''instance'', Instance b = [], Inr (JString (Instance b))),
      (''full_text'', False, Inr (JString (FullText b))),
      (''short_text'', ShortText b = [], Inr (JString (ShortText b))),
      (''color'', Color b = [], Inr (JString (Color b))),
      (''background'', Background b = [], Inr (JString (Background b))),
      (''border'', Border b = [], Inr (JString (Border b))),
      (''min_width'', MinWidth b = [], Inr (JString (MinWidth b))),
      (''align'', Align b = 0,
         textMarshalerEncoder ''i3bar.Alignment'' (Alignment_MarshalText (Align b))),
      (''urgent'', \<not> Urgent b, Inr (JBool (Urgent b))),
      (''separator'', \<not> Separator b, Inr (JBool (Separator b))),
      (''separator_block_width'', SeparatorBlockWidth b = 0,
         Inr (JInt (SeparatorBlockWidth b))),
      (''markup'', Markup b = 0,
         textMarshalerEncoder ''i3bar.Markup'' (Markup_MarshalText (Markup b)))]"

definition marshal_Header :: "Header \<Rightarrow> error + json" where
  "marshal_Header h = structEncoder (Header_fields h)"

definition marshal_Block :: "Block \<Rightarrow> error + json" where
  "marshal_Block b = structEncoder (Block_fields b)"

text \<open>A nil pointer and a nil slice are written as \<^verbatim>\<open>null\<close>.\<close>

definition ptrEncoder :: "Block option \<Rightarrow> error + json" where
  "ptrEncoder p = (case p of None \<Rightarrow> Inr JNull | Some b \<Rightarrow> marshal_Block b)"

fun arrayElems :: "(error + json) list \<Rightarrow> error + json list" where
  "arrayElems [] = Inr []"
| "arrayElems (x # xs) =
     (case x of
        Inl e \<Rightarrow> Inl e
      | Inr j \<Rightarrow> (case arrayElems xs of Inl e \<Rightarrow> Inl e | Inr js \<Rightarrow> Inr (j # js)))"

definition marshal_StatusLine :: "StatusLine \<Rightarrow> error + json" where
  "marshal_StatusLine b =
     (case b of
        None \<Rightarrow> Inr JNull
      | Some ps \<Rightarrow>
          (case arrayElems (map ptrEncoder ps) of Inl e \<Rightarrow> Inl e | Inr js \<Rightarrow> Inr (JArray js)))"

section \<open>The sink and the encoder bound to it\<close>

text \<open>
  An \<^verbatim>\<open>io.Writer\<close> is any object with \<^verbatim>\<open>Write(p []byte) (n int, err error)\<close>. The model
  is a function from the state of the sink and the bytes to the result and the new
  state; the theorems hold for every such function. \<open>Buffer_Write\<close> is the sink that
  keeps every byte (\<^verbatim>\<open>bytes.Buffer\<close>), and \<open>Recorder wr\<close> is \<open>wr\<close> with a log of the
  arguments of all calls of \<^verbatim>\<open>Write\<close>.
\<close>

type_synonym 's Writer = "'s \<Rightarrow> string \<Rightarrow> (nat \<times> error option) \<times> 's"

definition Buffer_Write :: "string Writer" where
  "Buffer_Write s p = ((length p, None), s @ p)"

definition Recorder :: "'s Writer \<Rightarrow> ('s \<times> string list) Writer" where
  "Recorder wr = (\<lambda>(s, log) p. case wr s p of (r, s') \<Rightarrow> (r, (s', log @ [p])))"

text \<open>
  \<^verbatim>\<open>json.Encoder\<close>: the error of a failed write, which every later \<^verbatim>\<open>Encode\<close> returns
  without writing, and the indentation set by \<^verbatim>\<open>SetIndent\<close>. The writer it is bound to
  is the sink that is passed along.
\<close>

record Encoder =
  err :: "error option"
  indentPrefix :: string
  indentValue :: string

definition NewEncoder :: Encoder where
  "NewEncoder = \<lparr>err = None, indentPrefix = [], indentValue = []\<rparr>"

definition SetIndent :: "Encoder \<Rightarrow> string \<Rightarrow> string \<Rightarrow> Encoder" where
  "SetIndent enc prefix indent = enc\<lparr>indentPrefix := prefix, indentValue := indent\<rparr>"

text \<open>
  The bytes that \<^verbatim>\<open>Encode\<close> hands to the writer for a value: its text, indented when
  an indentation is set, and the newline that ends every value.
\<close>

definition Encoder_bytes :: "Encoder \<Rightarrow> json \<Rightarrow> string" where
  "Encoder_bytes enc j =
     (if indentPrefix enc \<noteq> [] \<or> indentValue enc \<noteq> []
      then indented (indentPrefix enc) (indentValue enc) 0 j
      else compact j) @ [CHR 0x0A]"

text \<open>
  \<^verbatim>\<open>func (enc *Encoder) Encode(v any) error\<close>; the argument \<open>m\<close> is the walk over \<open>v\<close>.
  The result is the returned error, the encoder after the call and the sink after it.
\<close>

definition Encode ::
  "'s Writer \<Rightarrow> Encoder \<Rightarrow> error + json \<Rightarrow> 's \<Rightarrow> (error option \<times> Encoder) \<times> 's" where
  "Encode wr enc m s =
     (case err enc of
        Some e \<Rightarrow> ((Some e, enc), s)
      | None \<Rightarrow>
          (case m of
             Inl e \<Rightarrow> ((Some e, enc), s)
           | Inr j \<Rightarrow>
               (case wr s (Encoder_bytes enc j) of
                  ((n, None), s') \<Rightarrow> ((None, enc), s')
                | ((n, Some e), s') \<Rightarrow> ((Some e, enc\<lparr>err := Some e\<rparr>), s'))))"

section \<open>Stream\<close>

text \<open>
  \<^verbatim>\<open>Stream\<close> holds the writer \<^verbatim>\<open>w\<close>, the encoder \<^verbatim>\<open>e\<close> bound to the same writer, the
  mutex, and a reader and decoder that no method uses. The writer is one object
  reached through \<^verbatim>\<open>s.w\<close> and through \<^verbatim>\<open>s.e\<close>, so the model passes a single sink state
  through every call. The calls of the model run one after the other: the mutex is
  free at every \<^verbatim>\<open>Lock\<close> and released by the deferred \<^verbatim>\<open>Unlock\<close>, which leaves no trace
  in the state.
\<close>

record Stream =
  e :: Encoder

text \<open>
  \<^verbatim>\<open>NewStream(w, r, pretty, h)\<close>: \<open>Inl\<close> is the result \<^verbatim>\<open>(nil, err)\<close>, \<open>Inr\<close> is
  \<^verbatim>\<open>(stream, nil)\<close>; the second component is the sink after the call.
\<close>

definition NewStream ::
  "'s Writer \<Rightarrow> bool \<Rightarrow> Header \<Rightarrow> 's \<Rightarrow> (error + Stream) \<times> 's" where
  "NewStream wr pretty h s =
     (let enc = (if pretty then SetIndent NewEncoder [] ''    '' else NewEncoder) in
      case Encode wr enc (marshal_Header h) s of
        ((Some er, enc'), s1) \<Rightarrow> (Inl (Wrap er ''Failed to send header''), s1)
      | ((None, enc'), s1) \<Rightarrow>
          (case wr s1 ''['' of
             ((n, Some er), s2) \<Rightarrow> (Inl (Wrap er ''Failed to start infinite json array''), s2)
           | ((n, None), s2) \<Rightarrow> (Inr \<lparr>e = enc'\<rparr>, s2)))"

definition SendLine ::
  "'s Writer \<Rightarrow> Stream \<Rightarrow> StatusLine \<Rightarrow> 's \<Rightarrow> (error option \<times> Stream) \<times> 's" where
  "SendLine wr st b s =
     (case Encode wr (e st) (marshal_StatusLine b) s of
        ((Some er, enc'), s') \<Rightarrow>
          ((Some (Wrap er ''Failed to encode status line into json stream''), st\<lparr>e := enc'\<rparr>), s')
      | ((None, enc'), s') \<Rightarrow> ((None, st\<lparr>e := enc'\<rparr>), s'))"

definition Close :: "'s Writer \<Rightarrow> Stream \<Rightarrow> 's \<Rightarrow> (error option \<times> Stream) \<times> 's" where
  "Close wr st s =
     (case wr s '']'' of
        ((n, Some er), s') \<Rightarrow> ((Some (Wrap er ''Failed to close infinite json array''), st), s')
      | ((n, None), s') \<Rightarrow> ((None, st), s'))"

text \<open>
  Vocabulary of the statements about spellings: \<open>spelling w b\<close> says that \<open>b\<close> is the
  lower-case word \<open>w\<close> with any of its letters replaced by the upper-case letter.
\<close>

definition upper_byte :: "char \<Rightarrow> char" where
  "upper_byte c = (if 97 \<le> byte c \<and> byte c \<le> 122 then char_of (byte c - 32) else c)"

definition spelling :: "string \<Rightarrow> string \<Rightarrow> bool" where
  "spelling w b = list_all2 (\<lambda>x y. y = x \<or> y = upper_byte x) w b"

definition lower_word :: "string \<Rightarrow> bool" where
  "lower_word w = list_all (\<lambda>c. 97 \<le> byte c \<and> byte c \<le> 122) w"

section \<open>strings.Map and unicode.ToLower\<close>

text \<open>
  The branch of \<^verbatim>\<open>strings.ToLower\<close> for a string with a byte of \<^verbatim>\<open>0x80\<close> or more, for
  the inputs where it is evaluated. \<^verbatim>\<open>utf8.AppendRune\<close> writes a rune in UTF-8, and
  \<^verbatim>\<open>RuneError\<close> for a surrogate or a value above \<^verbatim>\<open>MaxRune\<close>.
\<close>

definition EncodeRune :: "nat \<Rightarrow> string" where
  "EncodeRune r =
     (if r \<le> 0x7F then [char_of r]
      else if r \<le> 0x7FF then [char_of (0xC0 + r div 64), char_of (0x80 + r mod 64)]
      else
        let r' = (if r > 0x10FFFF \<or> (0xD800 \<le> r \<and> r \<le> 0xDFFF) then RuneError else r) in
        if r' \<le> 0xFFFF then
          [char_of (0xE0 + r' div 4096), char_of (0x80 + (r' div 64) mod 64),
           char_of (0x80 + r' mod 64)]
        else
          [char_of (0xF0 + r' div 262144), char_of (0x80 + (r' div 4096) mod 64),
           char_of (0x80 + (r' div 64) mod 64), char_of (0x80 + r' mod 64)])"

text \<open>
  \<^verbatim>\<open>strings.Map(mapping, s)\<close> ranges over the runes of \<open>s\<close> (an invalid byte is the rune
  \<^verbatim>\<open>RuneError\<close> of width 1) and writes the mapped runes; a string whose runes are all
  valid and mapped to themselves is returned as it is, which is what writing them again
  gives. Runes are \<^typ>\<open>nat\<close>, so the case of a negative result, which drops the rune
  and which \<^verbatim>\<open>unicode.ToLower\<close> never produces, does not arise.
\<close>

fun strings_Map :: "(nat \<Rightarrow> nat) \<Rightarrow> string \<Rightarrow> string" where
  "strings_Map mapping [] = []"
| "strings_Map mapping (c # cs) =
     (case DecodeRuneInString (c # cs) of (r, width) \<Rightarrow>
        EncodeRune (mapping r) @ strings_Map mapping (drop (width - 1) cs))"

text \<open>
  \<^verbatim>\<open>unicode.ToLower\<close>: letters \<^verbatim>\<open>'A'..'Z'\<close> directly, and a rune above \<^verbatim>\<open>MaxASCII\<close>
  through the table \<^verbatim>\<open>unicode.CaseRanges\<close>, whose entries are a range of runes and the
  distance to the lower-case rune (a distance above \<^verbatim>\<open>MaxRune\<close> marks a range of
  alternating upper-case and lower-case letters). The table belongs to package
  \<^verbatim>\<open>unicode\<close> and is a parameter; \<open>CaseRanges_0130\<close> is its entry
  \<^verbatim>\<open>{0x0130, 0x0130, d{0, -199, 0}}\<close> for U+0130, the capital I with a dot above, whose
  lower-case rune is the letter \<^verbatim>\<open>i\<close>.
\<close>

definition unicode_ToLower :: "(nat \<times> nat \<times> int) list \<Rightarrow> nat \<Rightarrow> nat" where
  "unicode_ToLower CaseRanges r =
     (if r \<le> 0x7F then (if 65 \<le> r \<and> r \<le> 90 then r + 32 else r)
      else case find (\<lambda>(lo, hi, delta). lo \<le> r \<and> r \<le> hi) CaseRanges of
        None \<Rightarrow> r
      | Some (lo, hi, delta) \<Rightarrow>
          if delta > 0x10FFFF then lo + (((r - lo) div 2) * 2 + 1) else nat (int r + delta))"

definition CaseRanges_0130 :: "(nat \<times> nat \<times> int) list" where
  "CaseRanges_0130 = [(0x0130, 0x0130, - 199)]"

text \<open>
  The input \<^verbatim>\<open>r\<close>, U+0130, \<^verbatim>\<open>ght\<close> in UTF-8: its runes are ASCII letters and U+0130, so
  no other entry of the table is consulted for it.
\<close>

definition dotted_right :: string where
  "dotted_right = [CHR ''r'', CHR 0xC4, CHR 0xB0, CHR ''g'', CHR ''h'', CHR ''t'']"

section \<open>Inputs and sinks of the scenarios\<close>

text \<open>
  \<^verbatim>\<open>Header{Version: 1}\<close> and the Block with every field at its zero value, from which
  \<^verbatim>\<open>Block{FullText: t}\<close> is \<open>zero_Block\<lparr>FullText := t\<rparr>\<close>.
\<close>

definition Header1 :: Header where
  "Header1 = \<lparr>Version = 1, StopSignal = 0, ContSignal = 0, ClickEvents = False\<rparr>"

definition zero_Block :: Block where
  "zero_Block = \<lparr>Name = [], Instance = [], FullText = [], ShortText = [], Color = [],
     Background = [], Border = [], MinWidth = [], Align = 0, Urgent = False, Separator = False,
     SeparatorBlockWidth = 0, Markup = 0\<rparr>"

text \<open>
  \<open>Fail_At k\<close> is a sink whose state counts the calls of \<^verbatim>\<open>Write\<close> and whose call
  number \<open>k\<close> (from 0) fails; \<open>SendLines\<close> sends the lines of a list one after the other
  and collects what each \<open>SendLine\<close> returned; \<open>line_bytes enc b\<close> is what the encoder
  \<open>enc\<close> writes for the line \<open>b\<close>: nothing when the walk over \<open>b\<close> fails.
\<close>

definition Fail_At :: "nat \<Rightarrow> nat Writer" where
  "Fail_At k c p =
     (if c = k then ((0, Some (SinkError ''broken pipe'')), c + 1) else ((length p, None), c + 1))"

fun SendLines ::
  "'s Writer \<Rightarrow> Stream \<Rightarrow> StatusLine list \<Rightarrow> 's \<Rightarrow> (error option list \<times> Stream) \<times> 's" where
  "SendLines wr st [] s = (([], st), s)"
| "SendLines wr st (b # bs) s =
     (case SendLine wr st b s of
        ((r, st'), s') \<Rightarrow>
          (case SendLines wr st' bs s' of ((rs, st''), s'') \<Rightarrow> ((r # rs, st''), s'')))"

definition line_bytes :: "Encoder \<Rightarrow> StatusLine \<Rightarrow> string" where
  "line_bytes enc b = (case marshal_StatusLine b of Inl x \<Rightarrow> [] | Inr j \<Rightarrow> Encoder_bytes enc j)"

section \<open>Facts about bytes and text\<close>

text \<open>The digits that \<open>FormatUint\<close> prints denote the number printed.\<close>

lemma byte_digit: "d < 10 \<Longrightarrow> byte (digit d) = 48 + d"
proof -
  assume "d < 10"
  then have "d \<in> {0, 1, 2, 3, 4, 5, 6, 7, 8, 9}" by auto
  then show ?thesis
    by (auto simp: digit_def byte_def)
qed

lemma decimal_value_FormatUint: "decimal_value (FormatUint n) = n"
proof (induction n rule: FormatUint.induct)
  case (1 n)
  show ?case
  proof (cases "n < 10")
    case True
    then show ?thesis
      by (simp add: FormatUint.simps [of n] decimal_value_def byte_digit)
  next
    case False
    with 1 show ?thesis
      by (simp add: FormatUint.simps [of n] decimal_value_def byte_digit)
  qed
qed

lemma char_of_eq: "char_of (n::nat) = c \<longleftrightarrow> n mod 256 = of_char c"
  by (metis char_of_char of_char_of)

lemma eq_char_of: "c = char_of (n::nat) \<longleftrightarrow> n mod 256 = of_char c"
  by (metis char_of_char of_char_of)

lemma lower_byte_letter:
  assumes "97 \<le> byte x" "byte x \<le> 122"
  shows "lower_byte x = x" "lower_byte (upper_byte x) = x" "byte (upper_byte x) < 128"
  using assms by (auto simp: lower_byte_def upper_byte_def byte_def char_of_eq)

lemma spelling_lower:
  "spelling w b \<Longrightarrow> lower_word w \<Longrightarrow> isASCII b \<and> map lower_byte b = w"
  unfolding spelling_def lower_word_def isASCII_def
  by (induction w b rule: list_all2_induct) (auto simp: lower_byte_letter)

lemma spelling_ToLower: "lower_word w \<Longrightarrow> spelling w b \<Longrightarrow> ToLower uni b = w"
  by (simp add: ToLower_def spelling_lower)

lemma lower_word_names:
  "lower_word ''left''" "lower_word ''center''" "lower_word ''right''"
  "lower_word ''none''" "lower_word ''pango''"
  by (simp_all add: lower_word_def byte_def)

lemma ToLower_names:
  "ToLower uni ''left'' = ''left''" "ToLower uni ''center'' = ''center''"
  "ToLower uni ''right'' = ''right''" "ToLower uni ''none'' = ''none''"
  "ToLower uni ''pango'' = ''pango''"
  by (simp_all add: ToLower_def isASCII_def lower_byte_def byte_def)

lemma has_prefix_append: "has_prefix (b @ s) b"
  by (induction b) simp_all

lemma Contains_Nil: "Contains s []"
  by (cases s) simp_all

lemma Contains_self: "Contains (b @ s) b"
  by (cases b) (simp_all add: has_prefix_append Contains_Nil)

lemma Contains_append: "Contains (p @ b @ s) b"
proof (induction p)
  case Nil
  show ?case by (simp add: Contains_self)
next
  case (Cons c p)
  then show ?case by simp
qed

lemma Contains_suffix: "Contains (p @ b) b"
  using Contains_append [of p b "[]"] by simp

lemma lower_byte_spelling:
  assumes "lower_byte y = x" "97 \<le> byte x" "byte x \<le> 122"
  shows "y = x \<or> y = upper_byte x"
proof (cases "65 \<le> byte y \<and> byte y \<le> 90")
  case True
  then have x: "x = char_of (byte y + 32)"
    using assms(1) by (simp add: lower_byte_def)
  have "byte x = byte y + 32"
    using True unfolding x by (simp add: byte_def)
  then have "upper_byte x = y"
    using True by (simp add: upper_byte_def byte_def)
  then show ?thesis by simp
next
  case False
  then show ?thesis using assms(1) by (auto simp: lower_byte_def)
qed

lemma lower_spelling:
  "lower_word w \<Longrightarrow> map lower_byte b = w \<Longrightarrow> spelling w b"
  unfolding spelling_def lower_word_def
proof (induction b arbitrary: w)
  case Nil
  then show ?case by simp
next
  case (Cons y b)
  then obtain x w' where w: "w = x # w'" "lower_byte y = x" "map lower_byte b = w'"
    by auto
  from Cons.prems(1) w have x: "97 \<le> byte x" "byte x \<le> 122"
    and w': "list_all (\<lambda>c. 97 \<le> byte c \<and> byte c \<le> 122) w'"
    by simp_all
  from Cons.IH [OF w' w(3)] lower_byte_spelling [OF w(2) x] show ?case
    unfolding w(1) by simp
qed

lemma ToLower_spelling:
  assumes "isASCII b" "lower_word w"
  shows "ToLower uni b = w \<longleftrightarrow> spelling w b"
  using assms lower_spelling [of w b] spelling_ToLower [of w b uni]
  by (auto simp: ToLower_def)

lemma first_width: "first b < 0xF0 \<Longrightarrow> 2 \<le> first b mod 8 \<and> first b mod 8 \<le> 4"
  by (simp add: first_def split: if_splits)

lemma DecodeRuneInString_width:
  assumes "s \<noteq> []"
  shows "1 \<le> snd (DecodeRuneInString s) \<and> snd (DecodeRuneInString s) \<le> length s"
proof -
  have n: "1 \<le> length s" using assms by (cases s) simp_all
  obtain lo hi where a: "acceptRanges (first (byte (s ! 0)) div 16) = (lo, hi)"
    by (cases "acceptRanges (first (byte (s ! 0)) div 16)")
  show ?thesis
  proof (cases "first (byte (s ! 0)) \<ge> 0xF0")
    case True
    then show ?thesis using n assms by (simp add: DecodeRuneInString_def Let_def)
  next
    case False
    then have w: "2 \<le> first (byte (s ! 0)) mod 8" "first (byte (s ! 0)) mod 8 \<le> 4"
      using first_width [of "byte (s ! 0)"] by simp_all
    show ?thesis
      using False n w assms by (simp add: DecodeRuneInString_def Let_def a)
  qed
qed

section \<open>The text codecs of Alignment and Markup\<close>

text \<open>
  Claim C2. Decoding what \<open>MarshalText\<close> produced for \<open>Left\<close>, \<open>Center\<close> or \<open>Right\<close>
  gives the variant back, whatever the target held before; every spelling of
  \<open>left\<close>, \<open>center\<close>, \<open>right\<close> in any mix of upper and lower case decodes to its
  variant without an error. The same holds for Markup with \<open>none\<close> and \<open>pango\<close>.
\<close>

theorem text_roundtrip_and_case:
  "(\<forall>v \<in> {Left, Center, Right}. \<exists>t. Alignment_MarshalText v = Inr t
        \<and> Alignment_UnmarshalText uni a t = (v, None))
   \<and> (spelling ''left'' b \<longrightarrow> Alignment_UnmarshalText uni a b = (Left, None))
   \<and> (spelling ''center'' b \<longrightarrow> Alignment_UnmarshalText uni a b = (Center, None))
   \<and> (spelling ''right'' b \<longrightarrow> Alignment_UnmarshalText uni a b = (Right, None))
   \<and> (\<forall>v \<in> {NoMarkup, Pango}. \<exists>t. Markup_MarshalText v = Inr t
        \<and> Markup_UnmarshalText uni m t = (v, None))
   \<and> (spelling ''none'' b \<longrightarrow> Markup_UnmarshalText uni m b = (NoMarkup, None))
   \<and> (spelling ''pango'' b \<longrightarrow> Markup_UnmarshalText uni m b = (Pango, None))"
proof -
  have enc: "\<forall>v \<in> {Left, Center, Right}. \<exists>t. Alignment_MarshalText v = Inr t
        \<and> Alignment_UnmarshalText uni a t = (v, None)"
    by (simp add: Alignment_MarshalText_def Alignment_UnmarshalText_def ToLower_names
        Left_def Center_def Right_def)
  have encm: "\<forall>v \<in> {NoMarkup, Pango}. \<exists>t. Markup_MarshalText v = Inr t
        \<and> Markup_UnmarshalText uni m t = (v, None)"
    by (simp add: Markup_MarshalText_def Markup_UnmarshalText_def ToLower_names
        NoMarkup_def Pango_def)
  have l: "spelling ''left'' b \<longrightarrow> Alignment_UnmarshalText uni a b = (Left, None)"
    using spelling_ToLower [OF lower_word_names(1), of b uni]
    by (simp add: Alignment_UnmarshalText_def)
  have c: "spelling ''center'' b \<longrightarrow> Alignment_UnmarshalText uni a b = (Center, None)"
    using spelling_ToLower [OF lower_word_names(2), of b uni]
    by (simp add: Alignment_UnmarshalText_def)
  have r: "spelling ''right'' b \<longrightarrow> Alignment_UnmarshalText uni a b = (Right, None)"
    using spelling_ToLower [OF lower_word_names(3), of b uni]
    by (simp add: Alignment_UnmarshalText_def)
  have n: "spelling ''none'' b \<longrightarrow> Markup_UnmarshalText uni m b = (NoMarkup, None)"
    using spelling_ToLower [OF lower_word_names(4), of b uni]
    by (simp add: Markup_UnmarshalText_def)
  have p: "spelling ''pango'' b \<longrightarrow> Markup_UnmarshalText uni m b = (Pango, None)"
    using spelling_ToLower [OF lower_word_names(5), of b uni]
    by (simp add: Markup_UnmarshalText_def)
  from enc encm l c r n p show ?thesis by blast
qed

lemma spelling_examples:
  "spelling ''left'' ''LeFt''" "spelling ''center'' ''CENTER''" "spelling ''right'' ''righT''"
  "spelling ''none'' ''None''" "spelling ''pango'' ''pAnGo''"
  by (simp_all add: spelling_def upper_byte_def byte_def eq_char_of)

theorem text_roundtrip_and_case_witness:
  "Right \<in> {Left, Center, Right}
   \<and> (\<exists>t. Alignment_MarshalText Right = Inr t \<and> Alignment_UnmarshalText (\<lambda>s. s) Left t = (Right, None))
   \<and> spelling ''left'' ''LeFt'' \<and> Alignment_UnmarshalText (\<lambda>s. s) Right ''LeFt'' = (Left, None)
   \<and> spelling ''center'' ''CENTER'' \<and> Alignment_UnmarshalText (\<lambda>s. s) Left ''CENTER'' = (Center, None)
   \<and> spelling ''right'' ''righT'' \<and> Alignment_UnmarshalText (\<lambda>s. s) Left ''righT'' = (Right, None)
   \<and> Pango \<in> {NoMarkup, Pango}
   \<and> (\<exists>t. Markup_MarshalText Pango = Inr t \<and> Markup_UnmarshalText (\<lambda>s. s) NoMarkup t = (Pango, None))
   \<and> spelling ''none'' ''None'' \<and> Markup_UnmarshalText (\<lambda>s. s) Pango ''None'' = (NoMarkup, None)
   \<and> spelling ''pango'' ''pAnGo'' \<and> Markup_UnmarshalText (\<lambda>s. s) NoMarkup ''pAnGo'' = (Pango, None)"
proof -
  note T = text_roundtrip_and_case [where uni = "\<lambda>s. s"]
  have e: "\<exists>t. Alignment_MarshalText Right = Inr t
      \<and> Alignment_UnmarshalText (\<lambda>s. s) Left t = (Right, None)"
    using T [of Left "[]" NoMarkup] by simp
  have l: "Alignment_UnmarshalText (\<lambda>s. s) Right ''LeFt'' = (Left, None)"
    using T [of Right "''LeFt''" NoMarkup] spelling_examples(1) by simp
  have c: "Alignment_UnmarshalText (\<lambda>s. s) Left ''CENTER'' = (Center, None)"
    using T [of Left "''CENTER''" NoMarkup] spelling_examples(2) by simp
  have r: "Alignment_UnmarshalText (\<lambda>s. s) Left ''righT'' = (Right, None)"
    using T [of Left "''righT''" NoMarkup] spelling_examples(3) by simp
  have em: "\<exists>t. Markup_MarshalText Pango = Inr t
      \<and> Markup_UnmarshalText (\<lambda>s. s) NoMarkup t = (Pango, None)"
    using T [of Left "[]" NoMarkup] by simp
  have n: "Markup_UnmarshalText (\<lambda>s. s) Pango ''None'' = (NoMarkup, None)"
    using T [of Left "''None''" Pango] spelling_examples(4) by simp
  have p: "Markup_UnmarshalText (\<lambda>s. s) NoMarkup ''pAnGo'' = (Pango, None)"
    using T [of Left "''pAnGo''" NoMarkup] spelling_examples(5) by simp
  show ?thesis
    using e l c r em n p spelling_examples by simp
qed

lemma Map_dotted: "strings_Map (unicode_ToLower CaseRanges_0130) dotted_right = ''right''"
  by (simp add: dotted_right_def DecodeRuneInString_def first_def acceptRanges_def byte_def
      unicode_ToLower_def CaseRanges_0130_def EncodeRune_def char_of_eq Let_def)

lemma not_ascii_dotted: "\<not> isASCII dotted_right"
  by (simp add: isASCII_def dotted_right_def byte_def)

lemma spelling_length: "spelling w b \<Longrightarrow> length b = length w"
  by (auto simp: spelling_def dest: list_all2_lengthD)

text \<open>
  Claim C5, as the code has it. For an input of ASCII bytes that is none of the known
  names in any mix of upper and lower case, \<open>UnmarshalText\<close> returns an error whose
  message contains the input as it was given, and the value behind the pointer is the
  one it held before the call. For every input, whenever \<open>UnmarshalText\<close> returns an
  error, its message contains the input and the value behind the pointer is unchanged.
  Both hold for Alignment and for Markup.
\<close>

theorem unmarshal_unknown_text:
  "(isASCII b \<and> \<not> spelling ''left'' b \<and> \<not> spelling ''center'' b \<and> \<not> spelling ''right'' b
      \<longrightarrow> (\<exists>er. Alignment_UnmarshalText uni a b = (a, Some er) \<and> Contains (Error er) b))
   \<and> (snd (Alignment_UnmarshalText uni a b) = Some er
      \<longrightarrow> fst (Alignment_UnmarshalText uni a b) = a \<and> Contains (Error er) b)
   \<and> (isASCII b \<and> \<not> spelling ''none'' b \<and> \<not> spelling ''pango'' b
      \<longrightarrow> (\<exists>er. Markup_UnmarshalText uni m b = (m, Some er) \<and> Contains (Error er) b))
   \<and> (snd (Markup_UnmarshalText uni m b) = Some er'
      \<longrightarrow> fst (Markup_UnmarshalText uni m b) = m \<and> Contains (Error er') b)"
proof -
  have ca: "Contains (Error (Errorf (''unknown alignment: '' @ b))) b"
    by (simp only: Error.simps Contains_suffix)
  have cm: "Contains (Error (Errorf (''unknown markup: '' @ b))) b"
    by (simp only: Error.simps Contains_suffix)
  have fa: "Alignment_UnmarshalText uni a b = (a, Some (Errorf (''unknown alignment: '' @ b)))"
    if "snd (Alignment_UnmarshalText uni a b) \<noteq> None"
    using that by (simp add: Alignment_UnmarshalText_def Let_def split: if_splits)
  have fm: "Markup_UnmarshalText uni m b = (m, Some (Errorf (''unknown markup: '' @ b)))"
    if "snd (Markup_UnmarshalText uni m b) \<noteq> None"
    using that by (simp add: Markup_UnmarshalText_def Let_def split: if_splits)
  have sa: "snd (Alignment_UnmarshalText uni a b) \<noteq> None"
    if "isASCII b" "\<not> spelling ''left'' b" "\<not> spelling ''center'' b" "\<not> spelling ''right'' b"
    using that ToLower_spelling [OF that(1), of _ uni] lower_word_names
    by (simp add: Alignment_UnmarshalText_def)
  have sm: "snd (Markup_UnmarshalText uni m b) \<noteq> None"
    if "isASCII b" "\<not> spelling ''none'' b" "\<not> spelling ''pango'' b"
    using that ToLower_spelling [OF that(1), of _ uni] lower_word_names
    by (simp add: Markup_UnmarshalText_def)
  have A: "\<exists>er. Alignment_UnmarshalText uni a b = (a, Some er) \<and> Contains (Error er) b"
    if "isASCII b" "\<not> spelling ''left'' b" "\<not> spelling ''center'' b" "\<not> spelling ''right'' b"
    using fa [OF sa [OF that]] ca by blast
  have B: "fst (Alignment_UnmarshalText uni a b) = a \<and> Contains (Error er) b"
    if "snd (Alignment_UnmarshalText uni a b) = Some er"
  proof -
    from that have "snd (Alignment_UnmarshalText uni a b) \<noteq> None" by simp
    from fa [OF this] that ca show ?thesis by simp
  qed
  have C: "\<exists>er. Markup_UnmarshalText uni m b = (m, Some er) \<and> Contains (Error er) b"
    if "isASCII b" "\<not> spelling ''none'' b" "\<not> spelling ''pango'' b"
    using fm [OF sm [OF that]] cm by blast
  have D: "fst (Markup_UnmarshalText uni m b) = m \<and> Contains (Error er') b"
    if "snd (Markup_UnmarshalText uni m b) = Some er'"
  proof -
    from that have "snd (Markup_UnmarshalText uni m b) \<noteq> None" by simp
    from fm [OF this] that cm show ?thesis by simp
  qed
  from A B C D show ?thesis by blast
qed

theorem unmarshal_unknown_text_witness:
  "isASCII ''up'' \<and> \<not> spelling ''left'' ''up'' \<and> \<not> spelling ''center'' ''up''
   \<and> \<not> spelling ''right'' ''up''
   \<and> (\<exists>er. Alignment_UnmarshalText (\<lambda>s. s) Right ''up'' = (Right, Some er)
         \<and> Contains (Error er) ''up'')
   \<and> snd (Alignment_UnmarshalText (\<lambda>s. s) Right ''up'') = Some (Errorf ''unknown alignment: up'')
   \<and> fst (Alignment_UnmarshalText (\<lambda>s. s) Right ''up'') = Right
   \<and> Contains (Error (Errorf ''unknown alignment: up'')) ''up''
   \<and> \<not> spelling ''none'' ''up'' \<and> \<not> spelling ''pango'' ''up''
   \<and> (\<exists>er. Markup_UnmarshalText (\<lambda>s. s) Pango ''up'' = (Pango, Some er)
         \<and> Contains (Error er) ''up'')
   \<and> snd (Markup_UnmarshalText (\<lambda>s. s) Pango ''up'') = Some (Errorf ''unknown markup: up'')
   \<and> fst (Markup_UnmarshalText (\<lambda>s. s) Pango ''up'') = Pango
   \<and> Contains (Error (Errorf ''unknown markup: up'')) ''up''"
proof -
  have h: "ToLower (\<lambda>s. s) ''up'' = ''up''" "isASCII ''up''"
    by (simp_all add: ToLower_def isASCII_def lower_byte_def byte_def)
  have n: "\<not> spelling w ''up''" if "length w \<noteq> 2" for w
    using that spelling_length [of w "''up''"] by auto
  have sa: "snd (Alignment_UnmarshalText (\<lambda>s. s) Right ''up'')
      = Some (Errorf ''unknown alignment: up'')"
    by (simp add: Alignment_UnmarshalText_def h)
  have sm: "snd (Markup_UnmarshalText (\<lambda>s. s) Pango ''up'') = Some (Errorf ''unknown markup: up'')"
    by (simp add: Markup_UnmarshalText_def h)
  show ?thesis
    using unmarshal_unknown_text [of "''up''" "\<lambda>s. s" Right "Errorf ''unknown alignment: up''"
        Pango "Errorf ''unknown markup: up''"] h sa sm
    by (simp add: n)
qed

text \<open>
  The input \<^verbatim>\<open>r\<close>, U+0130, \<^verbatim>\<open>ght\<close> is no spelling of \<open>left\<close>, \<open>center\<close> or \<open>right\<close> in
  upper and lower case, and \<open>UnmarshalText\<close> accepts it as \<open>Right\<close>:
  \<^verbatim>\<open>strings.ToLower\<close> maps it to \<open>right\<close>.
\<close>

theorem unmarshal_unknown_text_counterexample:
  "\<not> spelling ''left'' dotted_right \<and> \<not> spelling ''center'' dotted_right
   \<and> \<not> spelling ''right'' dotted_right
   \<and> Alignment_UnmarshalText (strings_Map (unicode_ToLower CaseRanges_0130)) Left dotted_right
        = (Right, None)"
proof -
  have l: "length dotted_right = 6" by (simp add: dotted_right_def)
  have s: "\<not> spelling ''left'' dotted_right" "\<not> spelling ''right'' dotted_right"
    using spelling_length [of "''left''" dotted_right]
      spelling_length [of "''right''" dotted_right] l by auto
  have c: "\<not> spelling ''center'' dotted_right"
    by (simp add: spelling_def dotted_right_def upper_byte_def byte_def eq_char_of)
  have u: "Alignment_UnmarshalText (strings_Map (unicode_ToLower CaseRanges_0130)) Left
      dotted_right = (Right, None)"
    by (simp add: Alignment_UnmarshalText_def ToLower_def not_ascii_dotted Map_dotted)
  from s c u show ?thesis by simp
qed

text \<open>
  Claim C8. \<open>MarshalText\<close> of an Alignment other than \<open>Left\<close>, \<open>Center\<close>, \<open>Right\<close> fails
  with \<open>unknown alignment: \<close> followed by the value in decimal, and of a Markup other
  than \<open>NoMarkup\<close>, \<open>Pango\<close> with \<open>unknown markup: \<close> followed by the value; on the named
  values it returns the lower-case name.
\<close>

theorem marshal_text_cases:
  "(a \<notin> {Left, Center, Right} \<longrightarrow>
      Alignment_MarshalText a = Inl (Errorf (''unknown alignment: '' @ FormatInt a)))
   \<and> Alignment_MarshalText Left = Inr ''left''
   \<and> Alignment_MarshalText Center = Inr ''center''
   \<and> Alignment_MarshalText Right = Inr ''right''
   \<and> (m \<notin> {NoMarkup, Pango} \<longrightarrow>
      Markup_MarshalText m = Inl (Errorf (''unknown markup: '' @ FormatInt m)))
   \<and> Markup_MarshalText NoMarkup = Inr ''none''
   \<and> Markup_MarshalText Pango = Inr ''pango''"
  by (simp add: Alignment_MarshalText_def Markup_MarshalText_def
      Left_def Center_def Right_def NoMarkup_def Pango_def)

theorem marshal_text_cases_witness:
  "(3::int) \<notin> {Left, Center, Right}
   \<and> Alignment_MarshalText 3 = Inl (Errorf ''unknown alignment: 3'')
   \<and> (- 12::int) \<notin> {NoMarkup, Pango}
   \<and> Markup_MarshalText (- 12) = Inl (Errorf ''unknown markup: -12'')"
proof -
  have f: "FormatInt 3 = ''3''" "FormatInt (- 12) = ''-12''"
    by (simp_all add: FormatInt_def FormatUint.simps digit_def)
  show ?thesis
    using marshal_text_cases [of 3 "- 12"]
    by (simp add: f Left_def Center_def Right_def NoMarkup_def Pango_def)
qed

section \<open>The stream, call by call\<close>

lemma Recorder_apply: "Recorder wr (s, log) p = (fst (wr s p), (snd (wr s p), log @ [p]))"
  by (simp add: Recorder_def split: prod.splits)

lemma Encode_fail:
  "err enc = None \<Longrightarrow> fst (wr s (Encoder_bytes enc j)) = (n, Some er) \<Longrightarrow>
   Encode wr enc (Inr j) s = ((Some er, enc\<lparr>err := Some er\<rparr>), snd (wr s (Encoder_bytes enc j)))"
  by (cases "wr s (Encoder_bytes enc j)") (simp add: Encode_def)

lemma Encode_ok:
  "err enc = None \<Longrightarrow> fst (wr s (Encoder_bytes enc j)) = (n, None) \<Longrightarrow>
   Encode wr enc (Inr j) s = ((None, enc), snd (wr s (Encoder_bytes enc j)))"
  by (cases "wr s (Encoder_bytes enc j)") (simp add: Encode_def)

lemma Encode_marshal_error:
  "err enc = None \<Longrightarrow> Encode wr enc (Inl x) s = ((Some x, enc), s)"
  by (simp add: Encode_def)

lemma err_stream_encoder [simp]:
  "err (if pretty then SetIndent NewEncoder [] ''    '' else NewEncoder) = None"
  by (simp add: SetIndent_def NewEncoder_def)

lemma marshal_Header_total:
  "\<exists>j. marshal_Header h = Inr j"
  by (simp add: marshal_Header_def structEncoder_def Header_fields_def)

lemma NewStream_header_fails:
  assumes "marshal_Header h = Inr j"
    and "fst (wr s (Encoder_bytes (if pretty then SetIndent NewEncoder [] ''    '' else NewEncoder) j)) = (n, Some er)"
  shows "NewStream wr pretty h s = (Inl (Wrap er ''Failed to send header''),
      snd (wr s (Encoder_bytes (if pretty then SetIndent NewEncoder [] ''    '' else NewEncoder) j)))"
  using assms by (simp add: NewStream_def Encode_fail Let_def)

lemma NewStream_open_fails:
  assumes "marshal_Header h = Inr j"
    and "fst (wr s (Encoder_bytes (if pretty then SetIndent NewEncoder [] ''    '' else NewEncoder) j)) = (n, None)"
    and "s1 = snd (wr s (Encoder_bytes (if pretty then SetIndent NewEncoder [] ''    '' else NewEncoder) j))"
    and "fst (wr s1 ''['') = (n', Some er)"
  shows "NewStream wr pretty h s =
     (Inl (Wrap er ''Failed to start infinite json array''), snd (wr s1 ''[''))"
  using assms by (cases "wr s1 ''[''") (simp add: NewStream_def Encode_ok Let_def)

lemma NewStream_succeeds:
  assumes "marshal_Header h = Inr j"
    and "fst (wr s (Encoder_bytes (if pretty then SetIndent NewEncoder [] ''    '' else NewEncoder) j)) = (n, None)"
    and "s1 = snd (wr s (Encoder_bytes (if pretty then SetIndent NewEncoder [] ''    '' else NewEncoder) j))"
    and "fst (wr s1 ''['') = (n', None)"
  shows "NewStream wr pretty h s =
     (Inr \<lparr>e = (if pretty then SetIndent NewEncoder [] ''    '' else NewEncoder)\<rparr>, snd (wr s1 ''[''))"
  using assms by (cases "wr s1 ''[''") (simp add: NewStream_def Encode_ok Let_def)

lemma SendLine_write_fails:
  assumes "err (e st) = None" "marshal_StatusLine b = Inr j"
    and "fst (wr s (Encoder_bytes (e st) j)) = (n, Some er)"
  shows "SendLine wr st b s =
     ((Some (Wrap er ''Failed to encode status line into json stream''),
       st\<lparr>e := (e st)\<lparr>err := Some er\<rparr>\<rparr>), snd (wr s (Encoder_bytes (e st) j)))"
  using assms by (simp add: SendLine_def Encode_fail)

lemma SendLine_ok:
  assumes "err (e st) = None" "marshal_StatusLine b = Inr j"
    and "fst (wr s (Encoder_bytes (e st) j)) = (n, None)"
  shows "SendLine wr st b s = ((None, st), snd (wr s (Encoder_bytes (e st) j)))"
  using assms by (simp add: SendLine_def Encode_ok)

lemma SendLine_marshal_error:
  assumes "err (e st) = None" "marshal_StatusLine b = Inl x"
  shows "SendLine wr st b s =
     ((Some (Wrap x ''Failed to encode status line into json stream''), st), s)"
  using assms by (simp add: SendLine_def Encode_marshal_error)

lemma Close_fails:
  "fst (wr s '']'') = (n, Some er) \<Longrightarrow>
   Close wr st s = ((Some (Wrap er ''Failed to close infinite json array''), st), snd (wr s '']''))"
  by (cases "wr s '']''") (simp add: Close_def)

lemma Close_ok:
  "fst (wr s '']'') = (n, None) \<Longrightarrow> Close wr st s = ((None, st), snd (wr s '']''))"
  by (cases "wr s '']''") (simp add: Close_def)

lemma Close_sink: "snd (Close wr st s) = snd (wr s '']'')"
  by (cases "wr s '']''") (auto simp: Close_def split: option.splits)

lemma Close_stream: "snd (fst (Close wr st s)) = st"
  by (cases "wr s '']''") (auto simp: Close_def split: option.splits)

lemma SendLine_Buffer:
  "err (e st) = None \<Longrightarrow>
   SendLine Buffer_Write st b s =
     (((case marshal_StatusLine b of
          Inl x \<Rightarrow> Some (Wrap x ''Failed to encode status line into json stream'')
        | Inr j \<Rightarrow> None), st), s @ line_bytes (e st) b)"
  by (cases "marshal_StatusLine b")
     (simp_all add: SendLine_def Encode_def Buffer_Write_def line_bytes_def)

lemma SendLines_Buffer:
  "err (e st) = None \<Longrightarrow>
   snd (SendLines Buffer_Write st bs s) = s @ concat (map (line_bytes (e st)) bs)
   \<and> snd (fst (SendLines Buffer_Write st bs s)) = st"
proof (induction bs arbitrary: s)
  case Nil
  show ?case by simp
next
  case (Cons b bs)
  obtain rs st' s' where r:
    "SendLines Buffer_Write st bs (s @ line_bytes (e st) b) = ((rs, st'), s')"
    by (metis prod.exhaust)
  from Cons.IH [OF Cons.prems, of "s @ line_bytes (e st) b"] r
  have "s' = s @ line_bytes (e st) b @ concat (map (line_bytes (e st)) bs)" "st' = st"
    by simp_all
  then show ?case
    using r Cons.prems by (simp add: SendLine_Buffer)
qed

section \<open>What the encoder writes\<close>

lemma digit_in: "d < 10 \<Longrightarrow> digit d \<in> set ''0123456789''"
  unfolding digit_def by (rule nth_mem) simp

lemma digit_plain: "d < 10 \<Longrightarrow> digit d \<noteq> CHR 0x0A \<and> digit d \<noteq> CHR '',''"
  using digit_in [of d] by auto

lemma FormatUint_ends:
  "FormatUint n \<noteq> [] \<and> last (FormatUint n) = digit (n mod 10)
   \<and> (\<exists>d<10. hd (FormatUint n) = digit d)"
proof (induction n rule: FormatUint.induct)
  case (1 n)
  show ?case
  proof (cases "n < 10")
    case True
    then show ?thesis by (auto simp: FormatUint.simps [of n])
  next
    case False
    with 1 show ?thesis by (auto simp: FormatUint.simps [of n])
  qed
qed

lemma FormatInt_ends:
  "FormatInt i \<noteq> [] \<and> last (FormatInt i) \<notin> {CHR 0x0A, CHR '',''} \<and> hd (FormatInt i) \<noteq> CHR '',''"
proof -
  have l: "last (FormatUint n) \<notin> {CHR 0x0A, CHR '',''}" for n
    using FormatUint_ends [of n] digit_plain [of "n mod 10"] by simp
  have h: "hd (FormatUint n) \<noteq> CHR '',''" for n
  proof -
    obtain d where "d < 10" "hd (FormatUint n) = digit d"
      using FormatUint_ends [of n] by blast
    then show ?thesis using digit_plain [of d] by simp
  qed
  show ?thesis
    using l h FormatUint_ends by (simp add: FormatInt_def)
qed

lemma compact_ends:
  "compact j \<noteq> [] \<and> last (compact j) \<notin> {CHR 0x0A, CHR '',''} \<and> hd (compact j) \<noteq> CHR '',''"
  using FormatInt_ends by (cases j) (simp_all add: appendString_def)

lemma indented_ends:
  "indented p i d j \<noteq> [] \<and> last (indented p i d j) \<notin> {CHR 0x0A, CHR '',''}
   \<and> hd (indented p i d j) \<noteq> CHR '',''"
  using FormatInt_ends by (cases j) (simp_all add: appendString_def)

lemma Encoder_bytes_ends:
  "\<exists>t. Encoder_bytes enc j = t @ [CHR 0x0A] \<and> t \<noteq> []
       \<and> last t \<notin> {CHR 0x0A, CHR '',''} \<and> hd t \<noteq> CHR '',''"
  using compact_ends [of j] indented_ends [of "indentPrefix enc" "indentValue enc" 0 j]
  by (simp add: Encoder_bytes_def)

lemma Encoder_bytes_not_bracket: "Encoder_bytes enc j \<noteq> ''[''"
  using Encoder_bytes_ends [of enc j] by auto

lemma Encode_Recorder_log:
  "err enc = None \<Longrightarrow>
   snd (snd (Encode (Recorder wr) enc (Inr j) (s, log))) = log @ [Encoder_bytes enc j]"
  by (cases "wr s (Encoder_bytes enc j)")
     (auto simp: Encode_def Recorder_apply split: option.splits prod.splits)

lemma NewStream_Buffer:
  assumes "marshal_Header h = Inr j"
  shows "NewStream Buffer_Write pretty h s =
     (Inr \<lparr>e = (if pretty then SetIndent NewEncoder [] ''    '' else NewEncoder)\<rparr>,
      s @ Encoder_bytes (if pretty then SetIndent NewEncoder [] ''    '' else NewEncoder) j @ ''['')"
  using NewStream_succeeds [OF assms, of Buffer_Write s pretty _ _ "Suc 0"]
  by (simp add: Buffer_Write_def)

section \<open>Evaluating the encoder\<close>

lemma FormatInt_1: "FormatInt 1 = ''1''"
  by (simp add: FormatInt_def FormatUint.simps digit_def)

lemma marshal_Header1: "marshal_Header Header1 = Inr (JObject [(''version'', JInt 1)])"
  by (simp add: marshal_Header_def structEncoder_def Header_fields_def Header1_def)

lemma marshal_full_text:
  "marshal_Block (zero_Block\<lparr>FullText := t\<rparr>) = Inr (JObject [(''full_text'', JString t)])"
  by (simp add: marshal_Block_def structEncoder_def Block_fields_def zero_Block_def)

lemma appendString_CPU: \<open>appendString ''CPU 10%'' = ''"CPU 10%"''\<close>
  by (simp add: appendString_def byte_def htmlSafe_def)

lemma Encode_Buffer:
  "err enc = None \<Longrightarrow> Encode Buffer_Write enc (Inr j) s = ((None, enc), s @ Encoder_bytes enc j)"
  by (simp add: Encode_def Buffer_Write_def)

lemma NewStream_Header1:
  \<open>NewStream Buffer_Write False Header1 [] =
     (Inr \<lparr>e = NewEncoder\<rparr>, ''{"version":1}'' @ [CHR 0x0A] @ ''['')\<close>
  by (simp add: NewStream_def marshal_Header1 Encode_Buffer NewEncoder_def Encoder_bytes_def
      FormatInt_1 Buffer_Write_def)

lemma NewStream_Header1_pretty:
  \<open>NewStream Buffer_Write True Header1 [] =
     (Inr \<lparr>e = SetIndent NewEncoder [] ''    ''\<rparr>,
      ''{'' @ [CHR 0x0A] @ ''    "version": 1'' @ [CHR 0x0A] @ ''}'' @ [CHR 0x0A] @ ''['')\<close>
  by (simp add: NewStream_def marshal_Header1 Encode_Buffer NewEncoder_def SetIndent_def
      Encoder_bytes_def FormatInt_1 appendNewline_def Buffer_Write_def)

lemma marshal_line_CPU:
  "marshal_StatusLine (Some [Some (zero_Block\<lparr>FullText := ''CPU 10%''\<rparr>)])
     = Inr (JArray [JObject [(''full_text'', JString ''CPU 10%'')]])"
  by (simp add: marshal_StatusLine_def ptrEncoder_def marshal_full_text)

lemma SendLine_CPU:
  \<open>SendLine Buffer_Write \<lparr>e = NewEncoder\<rparr>
       (Some [Some (zero_Block\<lparr>FullText := ''CPU 10%''\<rparr>)]) s =
     ((None, \<lparr>e = NewEncoder\<rparr>), s @ ''[{"full_text":"CPU 10%"}]'' @ [CHR 0x0A])\<close>
  by (simp add: SendLine_def marshal_line_CPU Encode_Buffer NewEncoder_def Encoder_bytes_def
      appendString_CPU)

lemma SendLine_CPU_pretty:
  \<open>SendLine Buffer_Write \<lparr>e = SetIndent NewEncoder [] ''    ''\<rparr>
       (Some [Some (zero_Block\<lparr>FullText := ''CPU 10%''\<rparr>)]) s =
     ((None, \<lparr>e = SetIndent NewEncoder [] ''    ''\<rparr>),
      s @ ''['' @ [CHR 0x0A] @ ''    {'' @ [CHR 0x0A] @ ''        "full_text": "CPU 10%"''
        @ [CHR 0x0A] @ ''    }'' @ [CHR 0x0A] @ '']'' @ [CHR 0x0A])\<close>
  by (simp add: SendLine_def marshal_line_CPU Encode_Buffer NewEncoder_def SetIndent_def
      Encoder_bytes_def appendString_CPU appendNewline_def)

section \<open>The end-to-end scenario\<close>

text \<open>
  Claim C1, as the code has it. Over an empty sink that keeps every byte,
  \<open>NewStream\<close> with \<open>Header{Version: 1}\<close> and pretty-printing off leaves the header
  object, a newline and the byte \<open>[\<close> on the sink, and returns a stream; \<open>SendLine\<close> of
  the line of one block with the full text \<open>CPU 10%\<close> then appends the array of that
  block and a newline. With pretty-printing on, both values are indented by four
  spaces per level and end in the same newline.
\<close>

theorem scenario_sink_contents:
  \<open>NewStream Buffer_Write False Header1 [] =
     (Inr \<lparr>e = NewEncoder\<rparr>, ''{"version":1}'' @ [CHR 0x0A] @ ''['')
   \<and> SendLine Buffer_Write \<lparr>e = NewEncoder\<rparr>
         (Some [Some (zero_Block\<lparr>FullText := ''CPU 10%''\<rparr>)]) s =
       ((None, \<lparr>e = NewEncoder\<rparr>), s @ ''[{"full_text":"CPU 10%"}]'' @ [CHR 0x0A])
   \<and> NewStream Buffer_Write True Header1 [] =
       (Inr \<lparr>e = SetIndent NewEncoder [] ''    ''\<rparr>,
        ''{'' @ [CHR 0x0A] @ ''    "version": 1'' @ [CHR 0x0A] @ ''}'' @ [CHR 0x0A] @ ''['')
   \<and> SendLine Buffer_Write \<lparr>e = SetIndent NewEncoder [] ''    ''\<rparr>
         (Some [Some (zero_Block\<lparr>FullText := ''CPU 10%''\<rparr>)]) s =
       ((None, \<lparr>e = SetIndent NewEncoder [] ''    ''\<rparr>),
        s @ ''['' @ [CHR 0x0A] @ ''    {'' @ [CHR 0x0A] @ ''        "full_text": "CPU 10%"''
          @ [CHR 0x0A] @ ''    }'' @ [CHR 0x0A] @ '']'' @ [CHR 0x0A])\<close>
  using NewStream_Header1 NewStream_Header1_pretty SendLine_CPU [of s] SendLine_CPU_pretty [of s]
  by (intro conjI)

text \<open>
  The sink after \<open>NewStream\<close> is not the header object followed at once by \<open>[\<close>,
  with pretty-printing off or on, and what \<open>SendLine\<close> adds to a sink is not the array
  of the block alone.
\<close>

theorem scenario_sink_counterexample:
  \<open>snd (NewStream Buffer_Write False Header1 []) \<noteq> ''{"version":1}[''
   \<and> snd (NewStream Buffer_Write True Header1 []) \<noteq> ''{"version":1}[''
   \<and> snd (SendLine Buffer_Write \<lparr>e = NewEncoder\<rparr>
          (Some [Some (zero_Block\<lparr>FullText := ''CPU 10%''\<rparr>)]) [])
        \<noteq> ''[{"full_text":"CPU 10%"}]''
   \<and> snd (SendLine Buffer_Write \<lparr>e = SetIndent NewEncoder [] ''    ''\<rparr>
          (Some [Some (zero_Block\<lparr>FullText := ''CPU 10%''\<rparr>)]) [])
        \<noteq> ''[{"full_text":"CPU 10%"}]''\<close>
  by (simp add: NewStream_Header1 NewStream_Header1_pretty SendLine_CPU SendLine_CPU_pretty)

section \<open>Omitted fields\<close>

lemmas marshal_Block_simps =
  marshal_Block_def structEncoder_def Block_fields_def zero_Block_def
  textMarshalerEncoder_def Alignment_MarshalText_def Markup_MarshalText_def
  Left_def Center_def Right_def NoMarkup_def Pango_def

text \<open>
  Claim C3, as the code has it. A Block with every optional field at its zero value
  is written as an object whose only member is \<open>full_text\<close>, also when the full text is
  empty. With exactly one optional field set to a value that is not zero and that its
  encoder accepts (a non-empty string, \<open>true\<close>, a width other than 0, \<open>Center\<close> or \<open>Right\<close>,
  \<open>Pango\<close>), the object has that member and \<open>full_text\<close>, in the order of the struct's
  fields, and no other. An \<open>Align\<close> outside \<open>Left\<close>, \<open>Center\<close>, \<open>Right\<close> or a \<open>Markup\<close>
  outside \<open>NoMarkup\<close>, \<open>Pango\<close> makes the encoding fail with the error of \<open>MarshalText\<close>.
\<close>

theorem omitted_fields:
  \<open>marshal_Block (zero_Block\<lparr>FullText := t\<rparr>) = Inr (JObject [(''full_text'', JString t)])
   \<and> compact (JObject [(''full_text'', JString t)]) = ''{"full_text":'' @ appendString t @ ''}''
   \<and> (x \<noteq> [] \<longrightarrow>
        marshal_Block (zero_Block\<lparr>FullText := t, Name := x\<rparr>) =
          Inr (JObject [(''name'', JString x), (''full_text'', JString t)])
      \<and> marshal_Block (zero_Block\<lparr>FullText := t, Instance := x\<rparr>) =
          Inr (JObject [(''instance'', JString x), (''full_text'', JString t)])
      \<and> marshal_Block (zero_Block\<lparr>FullText := t, ShortText := x\<rparr>) =
          Inr (JObject [(''full_text'', JString t), (''short_text'', JString x)])
      \<and> marshal_Block (zero_Block\<lparr>FullText := t, Color := x\<rparr>) =
          Inr (JObject [(''full_text'', JString t), (''color'', JString x)])
      \<and> marshal_Block (zero_Block\<lparr>FullText := t, Background := x\<rparr>) =
          Inr (JObject [(''full_text'', JString t), (''background'', JString x)])
      \<and> marshal_Block (zero_Block\<lparr>FullText := t, Border := x\<rparr>) =
          Inr (JObject [(''full_text'', JString t), (''border'', JString x)])
      \<and> marshal_Block (zero_Block\<lparr>FullText := t, MinWidth := x\<rparr>) =
          Inr (JObject [(''full_text'', JString t), (''min_width'', JString x)]))
   \<and> marshal_Block (zero_Block\<lparr>FullText := t, Align := Center\<rparr>) =
          Inr (JObject [(''full_text'', JString t), (''align'', JString ''center'')])
   \<and> marshal_Block (zero_Block\<lparr>FullText := t, Align := Right\<rparr>) =
          Inr (JObject [(''full_text'', JString t), (''align'', JString ''right'')])
   \<and> marshal_Block (zero_Block\<lparr>FullText := t, Urgent := True\<rparr>) =
          Inr (JObject [(''full_text'', JString t), (''urgent'', JBool True)])
   \<and> marshal_Block (zero_Block\<lparr>FullText := t, Separator := True\<rparr>) =
          Inr (JObject [(''full_text'', JString t), (''separator'', JBool True)])
   \<and> (n \<noteq> 0 \<longrightarrow>
        marshal_Block (zero_Block\<lparr>FullText := t, SeparatorBlockWidth := n\<rparr>) =
          Inr (JObject [(''full_text'', JString t), (''separator_block_width'', JInt n)]))
   \<and> marshal_Block (zero_Block\<lparr>FullText := t, Markup := Pango\<rparr>) =
          Inr (JObject [(''full_text'', JString t), (''markup'', JString ''pango'')])
   \<and> (a \<notin> {Left, Center, Right} \<longrightarrow>
        marshal_Block (zero_Block\<lparr>FullText := t, Align := a\<rparr>) =
          Inl (MarshalerError ''i3bar.Alignment''
                (Errorf (''unknown alignment: '' @ FormatInt a)) ''MarshalText''))
   \<and> (m \<notin> {NoMarkup, Pango} \<longrightarrow>
        marshal_Block (zero_Block\<lparr>FullText := t, Markup := m\<rparr>) =
          Inl (MarshalerError ''i3bar.Markup''
                (Errorf (''unknown markup: '' @ FormatInt m)) ''MarshalText''))\<close>
  by (simp add: marshal_Block_simps)

theorem omitted_fields_witness:
  \<open>''cpu'' \<noteq> [] \<and> (9::int) \<noteq> 0 \<and> (3::int) \<notin> {Left, Center, Right}
   \<and> (- 1::int) \<notin> {NoMarkup, Pango}
   \<and> marshal_Block (zero_Block\<lparr>FullText := ''up'', Name := ''cpu''\<rparr>) =
          Inr (JObject [(''name'', JString ''cpu''), (''full_text'', JString ''up'')])
   \<and> marshal_Block (zero_Block\<lparr>FullText := ''up'', Color := ''cpu''\<rparr>) =
          Inr (JObject [(''full_text'', JString ''up''), (''color'', JString ''cpu'')])
   \<and> marshal_Block (zero_Block\<lparr>FullText := ''up'', SeparatorBlockWidth := 9\<rparr>) =
          Inr (JObject [(''full_text'', JString ''up''), (''separator_block_width'', JInt 9)])
   \<and> marshal_Block (zero_Block\<lparr>FullText := ''up'', Align := 3\<rparr>) =
          Inl (MarshalerError ''i3bar.Alignment''
                (Errorf (''unknown alignment: '' @ FormatInt 3)) ''MarshalText'')
   \<and> marshal_Block (zero_Block\<lparr>FullText := ''up'', Markup := - 1\<rparr>) =
          Inl (MarshalerError ''i3bar.Markup''
                (Errorf (''unknown markup: '' @ FormatInt (- 1))) ''MarshalText'')\<close>
  using omitted_fields [of "''up''" "''cpu''" 9 3 "- 1"]
  by (simp add: Left_def Center_def Right_def NoMarkup_def Pango_def)

text \<open>
  A Block whose only optional field that is not zero is \<open>Align = 3\<close> has no encoding:
  no object with an \<open>align\<close> member is produced.
\<close>

theorem omitted_fields_counterexample:
  "marshal_Block (zero_Block\<lparr>FullText := ''x'', Align := 3\<rparr>) =
     Inl (MarshalerError ''i3bar.Alignment'' (Errorf ''unknown alignment: 3'') ''MarshalText'')"
proof -
  have f: "FormatInt 3 = ''3''"
    by (simp add: FormatInt_def FormatUint.simps digit_def)
  show ?thesis
    by (simp add: marshal_Block_def structEncoder_def Block_fields_def zero_Block_def
        textMarshalerEncoder_def Alignment_MarshalText_def Left_def Center_def Right_def f)
qed

section \<open>Failures of the sink\<close>

lemma marshal_empty_line: "marshal_StatusLine (Some []) = Inr (JArray [])"
  by (simp add: marshal_StatusLine_def)

text \<open>
  Claim C4, as the code has it. An error of the sink is returned wrapped by
  \<^verbatim>\<open>errors.Wrap\<close> with the message of its phase: \<open>Failed to send header\<close> for the write of
  the header, \<open>Failed to start infinite json array\<close> for the write of \<open>[\<close>,
  \<open>Failed to encode status line into json stream\<close> for the write of a status line and
  \<open>Failed to close infinite json array\<close> for the write of \<open>]\<close>; the text of the wrapped
  error is the message, a colon and a space, and the text of the sink's error.
\<close>

theorem failure_messages:
  fixes wr :: "'s Writer"
  defines "enc \<equiv> \<lambda>pretty. if pretty then SetIndent NewEncoder [] ''    '' else NewEncoder"
  shows
  "(marshal_Header h = Inr j \<and> fst (wr s (Encoder_bytes (enc pretty) j)) = (n, Some er) \<longrightarrow>
      fst (NewStream wr pretty h s) = Inl (Wrap er ''Failed to send header''))
   \<and> (marshal_Header h = Inr j \<and> fst (wr s (Encoder_bytes (enc pretty) j)) = (n, None)
       \<and> fst (wr (snd (wr s (Encoder_bytes (enc pretty) j))) ''['') = (n', Some er) \<longrightarrow>
      fst (NewStream wr pretty h s) = Inl (Wrap er ''Failed to start infinite json array''))
   \<and> (err (e st) = None \<and> marshal_StatusLine b = Inr j'
       \<and> fst (wr s (Encoder_bytes (e st) j')) = (n, Some er) \<longrightarrow>
      fst (fst (SendLine wr st b s)) =
        Some (Wrap er ''Failed to encode status line into json stream''))
   \<and> (fst (wr s '']'') = (n, Some er) \<longrightarrow>
      fst (fst (Close wr st s)) = Some (Wrap er ''Failed to close infinite json array''))
   \<and> Error (Wrap er m) = m @ '': '' @ Error er"
  unfolding enc_def
  by (auto simp: NewStream_header_fails NewStream_open_fails SendLine_write_fails Close_fails)

theorem failure_messages_witness:
  "marshal_Header Header1 = Inr (JObject [(''version'', JInt 1)])
   \<and> fst (Fail_At 0 0 (Encoder_bytes NewEncoder (JObject [(''version'', JInt 1)])))
        = (0, Some (SinkError ''broken pipe''))
   \<and> fst (NewStream (Fail_At 0) False Header1 0)
        = Inl (Wrap (SinkError ''broken pipe'') ''Failed to send header'')
   \<and> fst (Fail_At 1 0 (Encoder_bytes NewEncoder (JObject [(''version'', JInt 1)])))
        = (length (Encoder_bytes NewEncoder (JObject [(''version'', JInt 1)])), None)
   \<and> fst (Fail_At 1 (snd (Fail_At 1 0 (Encoder_bytes NewEncoder (JObject [(''version'', JInt 1)]))))
        ''['') = (0, Some (SinkError ''broken pipe''))
   \<and> fst (NewStream (Fail_At 1) False Header1 0)
        = Inl (Wrap (SinkError ''broken pipe'') ''Failed to start infinite json array'')
   \<and> err (e \<lparr>e = NewEncoder\<rparr>) = None
   \<and> marshal_StatusLine (Some []) = Inr (JArray [])
   \<and> fst (Fail_At 0 0 (Encoder_bytes (e \<lparr>e = NewEncoder\<rparr>) (JArray [])))
        = (0, Some (SinkError ''broken pipe''))
   \<and> fst (fst (SendLine (Fail_At 0) \<lparr>e = NewEncoder\<rparr> (Some []) 0))
        = Some (Wrap (SinkError ''broken pipe'') ''Failed to encode status line into json stream'')
   \<and> fst (Fail_At 0 0 '']'') = (0, Some (SinkError ''broken pipe''))
   \<and> fst (fst (Close (Fail_At 0) \<lparr>e = NewEncoder\<rparr> 0))
        = Some (Wrap (SinkError ''broken pipe'') ''Failed to close infinite json array'')"
proof -
  let ?j = "JObject [(''version'', JInt 1)]"
  let ?er = "SinkError ''broken pipe''"
  let ?st = "\<lparr>e = NewEncoder\<rparr>"
  have h0: "fst (Fail_At 0 0 p) = (0, Some ?er)" for p
    by (simp add: Fail_At_def)
  have h1: "fst (Fail_At 1 0 p) = (length p, None)" "snd (Fail_At 1 0 p) = 1"
    "fst (Fail_At 1 1 p) = (0, Some ?er)" for p
    by (simp_all add: Fail_At_def)
  have n: "err (e ?st) = None"
    by (simp add: NewEncoder_def)
  note T = failure_messages [where h = Header1 and j = ?j and pretty = False and er = ?er
      and st = ?st and b = "Some []" and j' = "JArray []" and s = 0]
  have a: "fst (NewStream (Fail_At 0) False Header1 0) = Inl (Wrap ?er ''Failed to send header'')"
    using T [where wr = "Fail_At 0" and n = 0] marshal_Header1 h0 by simp
  have b: "fst (NewStream (Fail_At 1) False Header1 0)
      = Inl (Wrap ?er ''Failed to start infinite json array'')"
    using T [where wr = "Fail_At 1" and n = "length (Encoder_bytes NewEncoder ?j)" and n' = 0]
      marshal_Header1 h1 by simp
  have c: "fst (fst (SendLine (Fail_At 0) ?st (Some []) 0))
      = Some (Wrap ?er ''Failed to encode status line into json stream'')"
    using T [where wr = "Fail_At 0" and n = 0] marshal_empty_line h0 n by simp
  have d: "fst (fst (Close (Fail_At 0) ?st 0))
      = Some (Wrap ?er ''Failed to close infinite json array'')"
    using T [where wr = "Fail_At 0" and n = 0] h0 by simp
  show ?thesis
    using a b c d marshal_Header1 marshal_empty_line h0 h1 n by simp
qed

text \<open>
  With a sink that fails, the text of the returned error contains none of
  \<open>failed to send header\<close>, \<open>failed to start infinite array\<close>,
  \<open>failed to encode status line\<close>, \<open>failed to close infinite array\<close>.
\<close>

theorem failure_messages_counterexample:
  "fst (NewStream (Fail_At 0) False Header1 0)
        = Inl (Wrap (SinkError ''broken pipe'') ''Failed to send header'')
   \<and> \<not> Contains (Error (Wrap (SinkError ''broken pipe'') ''Failed to send header''))
          ''failed to send header''
   \<and> fst (NewStream (Fail_At 1) False Header1 0)
        = Inl (Wrap (SinkError ''broken pipe'') ''Failed to start infinite json array'')
   \<and> \<not> Contains (Error (Wrap (SinkError ''broken pipe'') ''Failed to start infinite json array''))
          ''failed to start infinite array''
   \<and> fst (fst (SendLine (Fail_At 0) \<lparr>e = NewEncoder\<rparr> (Some []) 0))
        = Some (Wrap (SinkError ''broken pipe'') ''Failed to encode status line into json stream'')
   \<and> \<not> Contains (Error (Wrap (SinkError ''broken pipe'')
            ''Failed to encode status line into json stream''))
          ''failed to encode status line''
   \<and> fst (fst (Close (Fail_At 0) \<lparr>e = NewEncoder\<rparr> 0))
        = Some (Wrap (SinkError ''broken pipe'') ''Failed to close infinite json array'')
   \<and> \<not> Contains (Error (Wrap (SinkError ''broken pipe'') ''Failed to close infinite json array''))
          ''failed to close infinite array''"
proof -
  let ?j = "JObject [(''version'', JInt 1)]"
  let ?er = "SinkError ''broken pipe''"
  let ?st = "\<lparr>e = NewEncoder\<rparr>"
  have h0: "fst (Fail_At 0 0 p) = (0, Some ?er)" for p
    by (simp add: Fail_At_def)
  have h1: "fst (Fail_At 1 0 p) = (length p, None)" "snd (Fail_At 1 0 p) = 1"
    "fst (Fail_At 1 1 p) = (0, Some ?er)" for p
    by (simp_all add: Fail_At_def)
  have n: "err (e ?st) = None"
    by (simp add: NewEncoder_def)
  have a: "fst (NewStream (Fail_At 0) False Header1 0) = Inl (Wrap ?er ''Failed to send header'')"
    using NewStream_header_fails [OF marshal_Header1, of "Fail_At 0" 0 False 0 ?er] h0 by simp
  have b: "fst (NewStream (Fail_At 1) False Header1 0)
      = Inl (Wrap ?er ''Failed to start infinite json array'')"
    using NewStream_open_fails [OF marshal_Header1, of "Fail_At 1" 0 False _ 1 0 ?er] h1 by simp
  have c: "fst (fst (SendLine (Fail_At 0) ?st (Some []) 0))
      = Some (Wrap ?er ''Failed to encode status line into json stream'')"
    using SendLine_write_fails [OF n marshal_empty_line, of "Fail_At 0" 0 0 ?er] h0 by simp
  have d: "fst (fst (Close (Fail_At 0) ?st 0))
      = Some (Wrap ?er ''Failed to close infinite json array'')"
    using Close_fails [of "Fail_At 0" 0 0 ?er ?st] h0 by simp
  have m: "\<not> Contains (Error (Wrap ?er ''Failed to send header'')) ''failed to send header''"
    "\<not> Contains (Error (Wrap ?er ''Failed to start infinite json array''))
          ''failed to start infinite array''"
    "\<not> Contains (Error (Wrap ?er ''Failed to encode status line into json stream''))
          ''failed to encode status line''"
    "\<not> Contains (Error (Wrap ?er ''Failed to close infinite json array''))
          ''failed to close infinite array''"
    by simp_all
  from a b c d m show ?thesis by (intro conjI)
qed

section \<open>Construction that fails\<close>

lemma Recorder_fst: "fst (Recorder wr (s, log) p) = fst (wr s p)"
  by (simp add: Recorder_apply)

lemma Recorder_snd: "snd (Recorder wr (s, log) p) = (snd (wr s p), log @ [p])"
  by (simp add: Recorder_apply)

text \<open>
  Claim C7. When the write of the header fails, \<open>NewStream\<close> returns no stream and the
  sink's error wrapped, and the header is the only write it attempted: the log of the
  calls of \<^verbatim>\<open>Write\<close> has grown by the header bytes alone, which are not \<open>[\<close>. When the
  header is written and the write of \<open>[\<close> fails, \<open>NewStream\<close> returns no stream and that
  error wrapped; the log has grown by the header bytes and \<open>[\<close>.
\<close>

theorem construction_failure:
  fixes wr :: "'s Writer"
  defines "enc \<equiv> \<lambda>pretty. if pretty then SetIndent NewEncoder [] ''    '' else NewEncoder"
  shows
  "(marshal_Header h = Inr j \<and> fst (wr s (Encoder_bytes (enc pretty) j)) = (n, Some er) \<longrightarrow>
      NewStream (Recorder wr) pretty h (s, log) =
        (Inl (Wrap er ''Failed to send header''),
         (snd (wr s (Encoder_bytes (enc pretty) j)), log @ [Encoder_bytes (enc pretty) j]))
      \<and> Encoder_bytes (enc pretty) j \<noteq> ''['')
   \<and> (marshal_Header h = Inr j \<and> fst (wr s (Encoder_bytes (enc pretty) j)) = (n, None)
       \<and> fst (wr (snd (wr s (Encoder_bytes (enc pretty) j))) ''['') = (n', Some er) \<longrightarrow>
      NewStream (Recorder wr) pretty h (s, log) =
        (Inl (Wrap er ''Failed to start infinite json array''),
         (snd (wr (snd (wr s (Encoder_bytes (enc pretty) j))) ''[''),
          log @ [Encoder_bytes (enc pretty) j, ''[''])))"
proof -
  let ?hb = "Encoder_bytes (enc pretty) j"
  have a: "NewStream (Recorder wr) pretty h (s, log) =
        (Inl (Wrap er ''Failed to send header''), (snd (wr s ?hb), log @ [?hb]))"
    if "marshal_Header h = Inr j" "fst (wr s ?hb) = (n, Some er)"
    using NewStream_header_fails [OF that(1), of "Recorder wr" "(s, log)" pretty n er] that(2)
    by (simp add: Recorder_fst Recorder_snd enc_def)
  have b: "NewStream (Recorder wr) pretty h (s, log) =
        (Inl (Wrap er ''Failed to start infinite json array''),
         (snd (wr (snd (wr s ?hb)) ''[''), log @ [?hb, ''['']))"
    if "marshal_Header h = Inr j" "fst (wr s ?hb) = (n, None)"
      "fst (wr (snd (wr s ?hb)) ''['') = (n', Some er)"
    using NewStream_open_fails [OF that(1), of "Recorder wr" "(s, log)" pretty n
        "(snd (wr s ?hb), log @ [?hb])" n' er] that(2,3)
    by (simp add: Recorder_fst Recorder_snd enc_def)
  from a b Encoder_bytes_not_bracket [of "enc pretty" j] show ?thesis by blast
qed

theorem construction_failure_witness:
  "marshal_Header Header1 = Inr (JObject [(''version'', JInt 1)])
   \<and> fst (Fail_At 0 0 (Encoder_bytes NewEncoder (JObject [(''version'', JInt 1)])))
        = (0, Some (SinkError ''broken pipe''))
   \<and> NewStream (Recorder (Fail_At 0)) False Header1 (0, []) =
        (Inl (Wrap (SinkError ''broken pipe'') ''Failed to send header''),
         (1, [Encoder_bytes NewEncoder (JObject [(''version'', JInt 1)])]))
   \<and> fst (Fail_At 1 0 (Encoder_bytes NewEncoder (JObject [(''version'', JInt 1)])))
        = (length (Encoder_bytes NewEncoder (JObject [(''version'', JInt 1)])), None)
   \<and> fst (Fail_At 1 (snd (Fail_At 1 0 (Encoder_bytes NewEncoder (JObject [(''version'', JInt 1)]))))
        ''['') = (0, Some (SinkError ''broken pipe''))
   \<and> NewStream (Recorder (Fail_At 1)) False Header1 (0, []) =
        (Inl (Wrap (SinkError ''broken pipe'') ''Failed to start infinite json array''),
         (2, [Encoder_bytes NewEncoder (JObject [(''version'', JInt 1)]), ''['']))"
proof -
  let ?j = "JObject [(''version'', JInt 1)]"
  let ?er = "SinkError ''broken pipe''"
  have h0: "Fail_At 0 0 p = ((0, Some ?er), 1)" for p
    by (simp add: Fail_At_def)
  have h1: "Fail_At 1 0 p = ((length p, None), 1)" "Fail_At 1 1 p = ((0, Some ?er), 2)" for p
    by (simp_all add: Fail_At_def)
  note T = construction_failure [where h = Header1 and j = ?j and pretty = False and er = ?er
      and s = 0 and log = "[]"]
  have a: "NewStream (Recorder (Fail_At 0)) False Header1 (0, []) =
        (Inl (Wrap ?er ''Failed to send header''), (1, [Encoder_bytes NewEncoder ?j]))"
    using T [where wr = "Fail_At 0" and n = 0] marshal_Header1 h0 by simp
  have b: "NewStream (Recorder (Fail_At 1)) False Header1 (0, []) =
        (Inl (Wrap ?er ''Failed to start infinite json array''),
         (2, [Encoder_bytes NewEncoder ?j, ''['']))"
    using T [where wr = "Fail_At 1" and n = "length (Encoder_bytes NewEncoder ?j)" and n' = 0]
      marshal_Header1 h1 by simp
  show ?thesis
    using a b marshal_Header1 h0 h1 by simp
qed

section \<open>Close\<close>

text \<open>
  Claim C6. \<open>Close\<close> calls \<^verbatim>\<open>Write\<close> once, with the single byte \<open>]\<close>, on every sink and in
  every state of the stream, and leaves the stream as it was; on the sink that keeps
  every byte, after any list of status lines sent, \<open>Close\<close> succeeds and the sink holds
  what it held before followed by \<open>]\<close>.
\<close>

theorem close_writes_one_bracket:
  "snd (snd (Close (Recorder wr) st (s, log))) = log @ ['']'']
   \<and> snd (fst (Close (Recorder wr) st (s, log))) = st
   \<and> Close Buffer_Write (snd (fst (SendLines Buffer_Write st bs s0)))
         (snd (SendLines Buffer_Write st bs s0)) =
       ((None, snd (fst (SendLines Buffer_Write st bs s0))),
        snd (SendLines Buffer_Write st bs s0) @ '']'')"
proof -
  have a: "snd (snd (Close (Recorder wr) st (s, log))) = log @ ['']'']"
    by (simp add: Close_sink Recorder_snd)
  have b: "snd (fst (Close (Recorder wr) st (s, log))) = st"
    by (simp add: Close_stream)
  have d: "Close Buffer_Write st' s1 = ((None, st'), s1 @ '']'')" for st' s1
    by (simp add: Close_def Buffer_Write_def)
  from a b d show ?thesis by blast
qed

lemma line_bytes_CPU:
  \<open>line_bytes NewEncoder (Some [Some (zero_Block\<lparr>FullText := ''CPU 10%''\<rparr>)])
     = ''[{"full_text":"CPU 10%"}]'' @ [CHR 0x0A]\<close>
  by (simp add: line_bytes_def marshal_line_CPU Encoder_bytes_def NewEncoder_def appendString_CPU)

lemma line_bytes_empty: \<open>line_bytes NewEncoder (Some []) = ''[]'' @ [CHR 0x0A]\<close>
  by (simp add: line_bytes_def marshal_empty_line Encoder_bytes_def NewEncoder_def)

theorem close_writes_one_bracket_witness:
  \<open>snd (Close Buffer_Write \<lparr>e = NewEncoder\<rparr>
       (snd (SendLines Buffer_Write \<lparr>e = NewEncoder\<rparr>
          [Some [Some (zero_Block\<lparr>FullText := ''CPU 10%''\<rparr>)], Some []] ''['')))
     = ''['' @ ''[{"full_text":"CPU 10%"}]'' @ [CHR 0x0A] @ ''[]'' @ [CHR 0x0A] @ '']''\<close>
proof -
  let ?st = "\<lparr>e = NewEncoder\<rparr>"
  let ?bs = "[Some [Some (zero_Block\<lparr>FullText := ''CPU 10%''\<rparr>)], Some []]"
  have n: "err (e ?st) = None" by (simp add: NewEncoder_def)
  have s: "snd (fst (SendLines Buffer_Write ?st ?bs ''['')) = ?st"
    using SendLines_Buffer [OF n, of ?bs "''[''"] by simp
  have c: "snd (SendLines Buffer_Write ?st ?bs ''['')
      = ''['' @ concat (map (line_bytes NewEncoder) ?bs)"
    using SendLines_Buffer [OF n, of ?bs "''[''"] by simp
  show ?thesis
    using close_writes_one_bracket [of Buffer_Write ?st "[]" "[]" ?bs "''[''"]
    unfolding s c by (simp add: line_bytes_CPU line_bytes_empty)
qed

section \<open>Newlines between the values\<close>

text \<open>
  Claim C10. What \<open>Encode\<close> hands to the sink in its one call of \<^verbatim>\<open>Write\<close> is the text of
  the value followed by a newline; the text is not empty, does not end in a newline or
  a comma and does not start with a comma. So on the sink that keeps every byte,
  \<open>NewStream\<close> leaves the header text, a newline and \<open>[\<close>, and the status lines sent
  afterwards follow one another, each as its text and a newline (\<open>line_bytes\<close>; a line
  whose encoding fails adds nothing), with no byte in between.
\<close>

theorem newline_after_values:
  fixes wr :: "'s Writer"
  defines "stream_enc \<equiv> \<lambda>pretty. if pretty then SetIndent NewEncoder [] ''    '' else NewEncoder"
  shows
  "(err enc = None \<longrightarrow>
      snd (snd (Encode (Recorder wr) enc (Inr j) (s, log))) = log @ [Encoder_bytes enc j])
   \<and> (\<exists>t. Encoder_bytes enc j = t @ [CHR 0x0A] \<and> t \<noteq> []
          \<and> last t \<notin> {CHR 0x0A, CHR '',''} \<and> hd t \<noteq> CHR '','')
   \<and> (\<exists>hj. marshal_Header h = Inr hj
          \<and> NewStream Buffer_Write pretty h sa =
              (Inr \<lparr>e = stream_enc pretty\<rparr>, sa @ Encoder_bytes (stream_enc pretty) hj @ ''[''))
   \<and> (err (e st) = None \<longrightarrow>
        snd (SendLines Buffer_Write st bs sb) = sb @ concat (map (line_bytes (e st)) bs))"
proof -
  have a: "err enc = None \<longrightarrow>
      snd (snd (Encode (Recorder wr) enc (Inr j) (s, log))) = log @ [Encoder_bytes enc j]"
    by (simp add: Encode_Recorder_log)
  obtain hj where hj: "marshal_Header h = Inr hj"
    using marshal_Header_total by blast
  have c: "\<exists>hj. marshal_Header h = Inr hj
          \<and> NewStream Buffer_Write pretty h sa =
              (Inr \<lparr>e = stream_enc pretty\<rparr>, sa @ Encoder_bytes (stream_enc pretty) hj @ ''['')"
    using hj NewStream_Buffer [OF hj, of pretty sa] unfolding stream_enc_def by blast
  have d: "err (e st) = None \<longrightarrow>
        snd (SendLines Buffer_Write st bs sb) = sb @ concat (map (line_bytes (e st)) bs)"
    by (simp add: SendLines_Buffer)
  from a Encoder_bytes_ends [of enc j] c d show ?thesis by blast
qed

theorem newline_after_values_witness:
  \<open>err NewEncoder = None
   \<and> snd (snd (Encode (Recorder Buffer_Write) NewEncoder (Inr (JArray [])) ([], [])))
        = [''[]'' @ [CHR 0x0A]]
   \<and> err (e \<lparr>e = NewEncoder\<rparr>) = None
   \<and> snd (SendLines Buffer_Write \<lparr>e = NewEncoder\<rparr>
          [Some [Some (zero_Block\<lparr>FullText := ''CPU 10%''\<rparr>)], Some []] ''['')
        = ''['' @ ''[{"full_text":"CPU 10%"}]'' @ [CHR 0x0A] @ ''[]'' @ [CHR 0x0A]\<close>
proof -
  let ?st = "\<lparr>e = NewEncoder\<rparr>"
  let ?bs = "[Some [Some (zero_Block\<lparr>FullText := ''CPU 10%''\<rparr>)], Some []]"
  have n: "err NewEncoder = None" "err (e ?st) = None"
    by (simp_all add: NewEncoder_def)
  have b: "Encoder_bytes NewEncoder (JArray []) = ''[]'' @ [CHR 0x0A]"
    by (simp add: Encoder_bytes_def NewEncoder_def)
  note T = newline_after_values [where enc = NewEncoder and j = "JArray []" and st = ?st
      and bs = ?bs and sb = "''[''" and wr = Buffer_Write and s = "[]" and log = "[]"]
  have a: "snd (snd (Encode (Recorder Buffer_Write) NewEncoder (Inr (JArray [])) ([], [])))
        = [''[]'' @ [CHR 0x0A]]"
    using T n b by simp
  have c: "snd (SendLines Buffer_Write ?st ?bs ''['')
      = ''['' @ concat (map (line_bytes NewEncoder) ?bs)"
    using T n by simp
  show ?thesis
    using a n unfolding c by (simp add: line_bytes_CPU line_bytes_empty)
qed

end
